theory Spec2Isabelle
  imports Main
begin

section \<open>JavaScript values\<close>

text \<open>
  A property of a JavaScript object is absent (reads as \<open>undefined\<close>), holds \<open>null\<close>, or
  holds a value. The resolvers tell the three apart: \<open>!==\<close> separates \<open>undefined\<close> from
  \<open>null\<close>, \<open>== null\<close> accepts both, and \<open>||\<close> and \<open>&&\<close> test truthiness, under which the
  empty string counts as false. Strings are the header and field texts of the HTTP layer,
  one \<open>char\<close> per code unit.
\<close>

datatype 'a js = Undefined | Null | Defined 'a

text \<open>Truthiness of a string-valued property: \<open>undefined\<close>, \<open>null\<close> and \<open>""\<close> are falsy.\<close>

fun truthy :: "string js \<Rightarrow> bool" where
  "truthy (Defined s) = (s \<noteq> [])"
| "truthy _ = False"

text \<open>\<open>a || b\<close> on values: the left operand when it is truthy, else the right one.\<close>

definition js_or :: "string js \<Rightarrow> string js \<Rightarrow> string js" where
  "js_or a b = (if truthy a then a else b)"

text \<open>
  The value of \<open>a && b\<close> where \<open>a\<close> is a string-valued property and \<open>b\<close> a boolean: the
  falsy left operand itself, or the boolean.
\<close>

datatype jsvalue = JString "string js" | JBool bool

definition js_and :: "string js \<Rightarrow> bool \<Rightarrow> jsvalue" where
  "js_and a b = (if truthy a then JBool b else JString a)"

fun is_truthy :: "jsvalue \<Rightarrow> bool" where
  "is_truthy (JBool b) = b"
| "is_truthy (JString v) = truthy v"

text \<open>A destructuring default \<open>{x = null}\<close> replaces an absent property only.\<close>

fun default_null :: "'a js \<Rightarrow> 'a js" where
  "default_null Undefined = Null"
| "default_null v = v"

section \<open>Session fields and marketing data\<close>

record UtmParams =
  source :: "string js"
  campaign :: "string js"
  medium :: "string js"

record UtmiParams =
  icampaign :: "string js"
  part :: "string js"
  page :: "string js"

text \<open>
  \<open>SessionFields\<close>: the two parameter groups the resolvers read, and the names of the other
  keys the session object carries. \<open>Undefined\<close> for a group means the key is absent.
\<close>

record SessionFields =
  utmParams :: "UtmParams js"
  utmiParams :: "UtmiParams js"
  otherKeys :: "string list"

text \<open>
  \<open>OrderFormMarketingData\<close>: the six tracked fields, the marketing tags (an array whose
  entries may be \<open>null\<close> or empty), and the remaining fields, which the resolvers copy.
\<close>

record OrderFormMarketingData =
  utmCampaign :: "string js"
  utmMedium :: "string js"
  utmSource :: "string js"
  utmiCampaign :: "string js"
  utmiPart :: "string js"
  utmipage :: "string js"
  marketingTags :: "string js list js"
  otherFields :: "(string \<times> string) list"

text \<open>Ramda's \<open>path([group, field], sessionData)\<close>: \<open>undefined\<close> when the group is missing.\<close>

definition path_utm :: "(UtmParams \<Rightarrow> string js) \<Rightarrow> SessionFields \<Rightarrow> string js" where
  "path_utm field s = (case utmParams s of Defined p \<Rightarrow> field p | _ \<Rightarrow> Undefined)"

definition path_utmi :: "(UtmiParams \<Rightarrow> string js) \<Rightarrow> SessionFields \<Rightarrow> string js" where
  "path_utmi field s = (case utmiParams s of Defined p \<Rightarrow> field p | _ \<Rightarrow> Undefined)"

record SessionMarketingParams =
  utm_source :: "string js"
  utm_campaign :: "string js"
  utm_medium :: "string js"
  utmi_campaign :: "string js"
  utmi_part :: "string js"
  utmi_page :: "string js"

definition getSessionMarketingParams :: "SessionFields \<Rightarrow> SessionMarketingParams" where
  "getSessionMarketingParams sesionData =
     \<lparr> utm_source = path_utm source sesionData,
       utm_campaign = path_utm campaign sesionData,
       utm_medium = path_utm medium sesionData,
       utmi_campaign = path_utmi icampaign sesionData,
       utmi_part = path_utmi part sesionData,
       utmi_page = path_utmi page sesionData \<rparr>"

text \<open>The object \<open>{}\<close> that stands in for a \<open>null\<close> stored marketing data.\<close>

definition emptyMarketingData :: OrderFormMarketingData where
  "emptyMarketingData =
     \<lparr> utmCampaign = Undefined, utmMedium = Undefined, utmSource = Undefined,
       utmiCampaign = Undefined, utmiPart = Undefined, utmipage = Undefined,
       marketingTags = Undefined, otherFields = [] \<rparr>"

text \<open>\<open>orderFormMarketingTags || {}\<close>: an object is truthy, \<open>null\<close> and \<open>undefined\<close> are not.\<close>

fun or_empty :: "OrderFormMarketingData js \<Rightarrow> OrderFormMarketingData" where
  "or_empty (Defined m) = m"
| "or_empty _ = emptyMarketingData"

definition shouldUpdateMarketingData ::
  "OrderFormMarketingData js \<Rightarrow> SessionFields \<Rightarrow> jsvalue" where
  "shouldUpdateMarketingData orderFormMarketingTags sessionData =
     (let stored = or_empty orderFormMarketingTags;
          utmCampaign' = default_null (utmCampaign stored);
          utmMedium' = default_null (utmMedium stored);
          utmSource' = default_null (utmSource stored);
          utmiCampaign' = default_null (utmiCampaign stored);
          utmiPart' = default_null (utmiPart stored);
          utmipage' = default_null (utmipage stored);
          params = getSessionMarketingParams sessionData
      in js_and
           (js_or (utm_source params)
             (js_or (utm_campaign params)
               (js_or (utm_medium params)
                 (js_or (utmi_campaign params)
                   (js_or (utmi_part params) (utmi_page params))))))
           (utmCampaign' \<noteq> utm_campaign params \<or>
            utmMedium' \<noteq> utm_medium params \<or>
            utmSource' \<noteq> utm_source params \<or>
            utmiCampaign' \<noteq> utmi_campaign params \<or>
            utmiPart' \<noteq> utmi_part params \<or>
            utmipage' \<noteq> utmi_page params))"

section \<open>Cookie sanitizer\<close>

text \<open>
  \<open>CHECKOUT_COOKIE\<close> is a constant of the utilities module; it is a parameter here.
\<close>

definition SetCookieWhitelist :: "string \<Rightarrow> string list" where
  "SetCookieWhitelist CHECKOUT_COOKIE = [CHECKOUT_COOKIE, ''.ASPXAUTH'']"

text \<open>
  \<open>String.prototype.split\<close> with a one-character separator: the pieces between the
  separators, so that \<open>"".split("=")\<close> is \<open>[""]\<close> and \<open>"=".split("=")\<close> is \<open>["", ""]\<close>.
\<close>

fun split_on :: "char \<Rightarrow> string \<Rightarrow> string list" where
  "split_on sep [] = [[]]"
| "split_on sep (c # cs) =
     (if c = sep then [] # split_on sep cs
      else (case split_on sep cs of
              [] \<Rightarrow> [[c]]
            | w # ws \<Rightarrow> (c # w) # ws))"

definition isWhitelistedSetCookie :: "string \<Rightarrow> string \<Rightarrow> bool" where
  "isWhitelistedSetCookie CHECKOUT_COOKIE cookie =
     (case split_on (CHR ''='') cookie of
        [] \<Rightarrow> False
      | key # _ \<Rightarrow> key \<in> set (SetCookieWhitelist CHECKOUT_COOKIE))"

subsection \<open>The regular expression \<open>/domain=.+?(;|$)/\<close>\<close>

text \<open>
  Without the \<open>s\<close> flag the dot matches every code unit except a line terminator; of those,
  line feed and carriage return exist among the code units of a header line.
\<close>

definition is_line_terminator :: "char \<Rightarrow> bool" where
  "is_line_terminator c = (c = CHR 0x0A \<or> c = CHR 0x0D)"

text \<open>
  The lazy \<open>.+?\<close> after its first character, followed by the group \<open>(;|$)\<close>: at each
  position the group is tried first (a semicolon, else the end of the input); otherwise the
  dot takes one more character. The result is the text matched from here, the text of the
  group and the rest of the input.
\<close>

fun lazy_rest :: "string \<Rightarrow> (string \<times> string \<times> string) option" where
  "lazy_rest [] = Some ([], [], [])"
| "lazy_rest (c # cs) =
     (if c = CHR '';'' then Some ([c], [c], cs)
      else if is_line_terminator c then None
      else (case lazy_rest cs of
              None \<Rightarrow> None
            | Some (m, g, r) \<Rightarrow> Some (c # m, g, r)))"

text \<open>A match of the whole expression starting at the head of the input.\<close>

definition match_here :: "string \<Rightarrow> (string \<times> string \<times> string) option" where
  "match_here s =
     (if take 7 s = ''domain='' then
        (case drop 7 s of
           [] \<Rightarrow> None
         | c # cs \<Rightarrow>
             if is_line_terminator c then None
             else (case lazy_rest cs of
                     None \<Rightarrow> None
                   | Some (m, g, r) \<Rightarrow> Some (''domain='' @ c # m, g, r)))
      else None)"

text \<open>
  The leftmost match: the text before it, the match, the group and the text after it.
\<close>

fun regex_exec :: "string \<Rightarrow> string \<Rightarrow> (string \<times> string \<times> string \<times> string) option" where
  "regex_exec pre [] = None"
| "regex_exec pre (c # cs) =
     (case match_here (c # cs) of
        Some (m, g, r) \<Rightarrow> Some (pre, m, g, r)
      | None \<Rightarrow> regex_exec (pre @ [c]) cs)"

text \<open>
  The replacement text of \<open>String.prototype.replace\<close> is a template: \<open>$$\<close> is a dollar
  sign, \<open>$&\<close> the match, \<open>$`\<close> the text before it, \<open>$'\<close> the text after it, \<open>$1\<close> and
  \<open>$01\<close> the only group; any other dollar sign stands for itself.
\<close>

fun get_substitution :: "string \<Rightarrow> string \<Rightarrow> string \<Rightarrow> string \<Rightarrow> string \<Rightarrow> string" where
  "get_substitution m b a g [] = []"
| "get_substitution m b a g [c] = [c]"
| "get_substitution m b a g (c # d # ds) =
     (if c \<noteq> CHR ''$'' then c # get_substitution m b a g (d # ds)
      else if d = CHR ''$'' then CHR ''$'' # get_substitution m b a g ds
      else if d = CHR ''&'' then m @ get_substitution m b a g ds
      else if d = CHR ''`'' then b @ get_substitution m b a g ds
      else if d = CHR 0x27 then a @ get_substitution m b a g ds
      else if d = CHR ''0'' \<and> take 1 ds = ''1'' then g @ get_substitution m b a g (drop 1 ds)
      else if d = CHR ''1'' then g @ get_substitution m b a g ds
      else c # get_substitution m b a g (d # ds))"

definition replaceDomain :: "string \<Rightarrow> string \<Rightarrow> string" where
  "replaceDomain host cookie =
     (case regex_exec [] cookie of
        None \<Rightarrow> cookie
      | Some (b, m, g, a) \<Rightarrow>
          b @ get_substitution m b a g (''domain='' @ host @ '';'') @ a)"

section \<open>Order forms, upstream clients and calls\<close>

record OrderFormItem =
  itemId :: string
  itemQuantity :: nat
  itemSeller :: string

record ClientPreferencesData =
  pref_locale :: "string js"
  otherPreferences :: "(string \<times> string) list"

record OrderForm =
  orderFormId :: string
  items :: "OrderFormItem list"
  marketingData :: "OrderFormMarketingData js"
  clientPreferencesData :: "ClientPreferencesData js"

record AssemblyOptionInput =
  assemblyId :: string
  optionId :: string
  optionQuantity :: nat
  optionSeller :: string

text \<open>
  \<open>OrderFormItemInput\<close>: \<open>ItemFields\<close> is what the pattern \<open>{ options, ...rest }\<close> binds to
  \<open>rest\<close>, and the input item extends it with \<open>options\<close>.
\<close>

record ItemFields =
  inputId :: string
  inputIndex :: "nat js"
  inputQuantity :: nat
  inputSeller :: string

record OrderFormItemInput = ItemFields +
  options :: "AssemblyOptionInput list js"

record AddItemArgs =
  arg_orderFormId :: "string js"
  arg_items :: "OrderFormItemInput list js"
  arg_salesChannel :: "string js"

record Headers =
  set_cookie :: "string list js"

record RawResponse =
  headers :: "Headers js"
  data :: OrderForm

record Address =
  addressId :: "string js"

record PickupStoreInfo =
  address :: "Address js"

record SLA =
  slaId :: string
  deliveryChannel :: "string js"
  pickupStoreInfo :: "PickupStoreInfo js"

record LogisticsInfo =
  slas :: "SLA list js"

record Simulation =
  logisticsInfo :: "LogisticsInfo list js"

record SimulationItem =
  simId :: string
  simSeller :: string
  simQuantity :: nat

record SimulationAddress =
  geoCoordinates :: "string list"
  addressCountry :: string

record SimulationArgs =
  simItems :: "SimulationItem list"
  simCountry :: string
  selectedAddresses :: "SimulationAddress list"

record Segment =
  cultureInfo :: "string js"

text \<open>
  The request context: the segment (which the resolver assumes present with \<open>segment!\<close>)
  and the value of \<open>ctx.get('x-forwarded-host')\<close>.
\<close>

record Context =
  segment :: "Segment js"
  x_forwarded_host :: string

datatype error = UserInputError string | TypeError string | UpstreamError string

text \<open>
  What calling an upstream function yields: it throws before returning a promise, or it
  returns a promise that is rejected or fulfilled. A failure carries the upstream's message.
\<close>

datatype 'a outcome = Throws string | Rejects string | Resolves 'a

text \<open>
  \<open>await f(...)\<close> inside an asynchronous function: both failures surface at the await, as
  the upstream's own error.
\<close>

fun await :: "'a outcome \<Rightarrow> error + 'a" where
  "await (Throws e) = Inl (UpstreamError e)"
| "await (Rejects e) = Inl (UpstreamError e)"
| "await (Resolves v) = Inr v"

text \<open>The upstream calls a resolver issues, with their arguments, in the order issued.\<close>

datatype call =
    OrderFormCall
  | OrderFormRawCall
  | GetSessionCall
  | UpdateOrderFormClientPreferencesDataCall string ClientPreferencesData
  | UpdateOrderFormMarketingDataCall string OrderFormMarketingData
  | AddItemCall string "ItemFields list" "string js"
  | AttachOptionsCall string ItemFields "AssemblyOptionInput list"
  | SimulationCall SimulationArgs

text \<open>
  The upstream clients. Each answer may depend on the calls issued before it, so that a
  second fetch of the order form can differ from the first. \<open>checkout_attachOptions\<close> is
  the call by which the attachments helper associates options with an added item, and
  \<open>sessionQueries_getSession\<close> is the session module's query.
\<close>

record Clients =
  checkout_orderForm :: "call list \<Rightarrow> OrderForm outcome"
  checkout_orderFormRaw :: "call list \<Rightarrow> RawResponse outcome"
  checkout_updateOrderFormClientPreferencesData ::
    "call list \<Rightarrow> string \<Rightarrow> ClientPreferencesData \<Rightarrow> OrderForm outcome"
  checkout_updateOrderFormMarketingData ::
    "call list \<Rightarrow> string \<Rightarrow> OrderFormMarketingData \<Rightarrow> OrderForm outcome"
  checkout_addItem ::
    "call list \<Rightarrow> string \<Rightarrow> ItemFields list \<Rightarrow> string js \<Rightarrow> OrderForm outcome"
  checkout_attachOptions ::
    "call list \<Rightarrow> string \<Rightarrow> ItemFields \<Rightarrow> AssemblyOptionInput list \<Rightarrow> OrderForm outcome"
  checkout_simulation :: "call list \<Rightarrow> SimulationArgs \<Rightarrow> Simulation outcome"
  sessionQueries_getSession :: "call list \<Rightarrow> SessionFields outcome"

section \<open>Session retrieval\<close>

definition emptySession :: SessionFields where
  "emptySession = \<lparr> utmParams = Undefined, utmiParams = Undefined, otherKeys = [] \<rparr>"

text \<open>
  \<open>getSession\<close> is asynchronous and returns the promise of \<open>sessionQueries.getSession\<close> from
  inside its \<open>try\<close> block without awaiting it. The \<open>catch\<close> clause therefore handles an
  exception thrown by the call itself; a promise that is rejected later is handed to the
  caller as it is.
\<close>

definition getSession :: "Clients \<Rightarrow> call list \<Rightarrow> SessionFields outcome" where
  "getSession cl tr =
     (case sessionQueries_getSession cl tr of
        Throws err \<Rightarrow> Resolves emptySession
      | Rejects err \<Rightarrow> Rejects err
      | Resolves s \<Rightarrow> Resolves s)"

section \<open>Locale synchronisation and the order-form query\<close>

definition syncWithStoreLocale ::
  "Clients \<Rightarrow> OrderForm \<Rightarrow> string js \<Rightarrow> call list \<Rightarrow> (error + OrderForm) \<times> call list" where
  "syncWithStoreLocale cl orderForm cultureInfo' tr =
     (let clientPreferencesData' =
            (case clientPreferencesData orderForm of
               Defined c \<Rightarrow> c
             | _ \<Rightarrow> \<lparr> pref_locale = cultureInfo', otherPreferences = [] \<rparr>);
          shouldUpdateClientPreferencesData =
            (truthy cultureInfo' \<and> truthy (pref_locale clientPreferencesData') \<and>
             cultureInfo' \<noteq> pref_locale clientPreferencesData')
      in if shouldUpdateClientPreferencesData then
           (let newClientPreferencesData = clientPreferencesData'\<lparr> pref_locale := cultureInfo' \<rparr>;
                tr' = tr @ [UpdateOrderFormClientPreferencesDataCall (orderFormId orderForm)
                              newClientPreferencesData]
            in case await (checkout_updateOrderFormClientPreferencesData cl tr
                             (orderFormId orderForm) newClientPreferencesData) of
                 Inl e \<Rightarrow> (Inr orderForm, tr')
               | Inr updated \<Rightarrow> (Inr updated, tr'))
         else (Inr orderForm, tr))"

text \<open>
  The \<open>orderForm\<close> query. \<open>parseCookie\<close> belongs to the utilities module and is a parameter;
  the third component of the result is the list of cookies set on the response, in order.
\<close>

definition queries_orderForm ::
  "string \<Rightarrow> (string \<Rightarrow> 'c) \<Rightarrow> Clients \<Rightarrow> Context \<Rightarrow> (error + OrderForm) \<times> call list \<times> 'c list" where
  "queries_orderForm CHECKOUT_COOKIE parseCookie cl ctx =
     (case await (checkout_orderFormRaw cl []) of
        Inl e \<Rightarrow> (Inl e, [OrderFormRawCall], [])
      | Inr resp \<Rightarrow>
          (case segment ctx of
             Defined seg \<Rightarrow>
               (case syncWithStoreLocale cl (data resp) (cultureInfo seg) [OrderFormRawCall] of
                  (Inl e, tr) \<Rightarrow> (Inl e, tr, [])
                | (Inr orderForm, tr) \<Rightarrow>
                    (let responseSetCookies =
                           (case headers resp of
                              Defined rawHeaders \<Rightarrow>
                                (case set_cookie rawHeaders of Defined cs \<Rightarrow> cs | _ \<Rightarrow> [])
                            | _ \<Rightarrow> []);
                         host = x_forwarded_host ctx;
                         forwardedSetCookies =
                           filter (isWhitelistedSetCookie CHECKOUT_COOKIE) responseSetCookies;
                         parseAndClean = parseCookie \<circ> replaceDomain host;
                         cleanCookies = map parseAndClean forwardedSetCookies
                     in (Inr orderForm, tr, cleanCookies)))
           | _ \<Rightarrow> (Inl (TypeError ''Cannot read property cultureInfo''), [OrderFormRawCall], [])))"

section \<open>Pickup SLAs\<close>

text \<open>Ramda's \<open>pathOr([], ['logisticsInfo', '0', 'slas'], simulation)\<close>.\<close>

definition pathOr_slas :: "Simulation \<Rightarrow> SLA list" where
  "pathOr_slas simulation =
     (case logisticsInfo simulation of
        Defined (first # _) \<Rightarrow> (case slas first of Defined ss \<Rightarrow> ss | _ \<Rightarrow> [])
      | _ \<Rightarrow> [])"

text \<open>The simulation request that \<open>skuPickupSLAs\<close> sends.\<close>

definition simulation_args :: "string \<Rightarrow> string \<Rightarrow> string \<Rightarrow> string \<Rightarrow> string \<Rightarrow> SimulationArgs" where
  "simulation_args itemId' seller lat long country =
     \<lparr> simItems = [\<lparr> simId = itemId', simSeller = seller, simQuantity = 1 \<rparr>],
       simCountry = country,
       selectedAddresses = [\<lparr> geoCoordinates = [long, lat], addressCountry = country \<rparr>] \<rparr>"

definition queries_skuPickupSLAs ::
  "Clients \<Rightarrow> string \<Rightarrow> string \<Rightarrow> string \<Rightarrow> string \<Rightarrow> string \<Rightarrow> (error + SLA list) \<times> call list" where
  "queries_skuPickupSLAs cl itemId' seller lat long country =
     (let args = simulation_args itemId' seller lat long country
      in case await (checkout_simulation cl [] args) of
           Inl e \<Rightarrow> (Inl e, [SimulationCall args])
         | Inr simulation \<Rightarrow>
             (Inr (filter (\<lambda>sla. deliveryChannel sla = Defined ''pickup-in-point'')
                     (pathOr_slas simulation)),
              [SimulationCall args]))"

text \<open>Ramda's \<open>path(['pickupStoreInfo', 'address', 'addressId'], s)\<close>.\<close>

definition path_addressId :: "SLA \<Rightarrow> string js" where
  "path_addressId s =
     (case pickupStoreInfo s of
        Defined info \<Rightarrow> (case address info of Defined a \<Rightarrow> addressId a | _ \<Rightarrow> Undefined)
      | _ \<Rightarrow> Undefined)"

text \<open>\<open>Array.prototype.find\<close>: the first element that satisfies the test, if any.\<close>

definition queries_skuPickupSLA ::
  "Clients \<Rightarrow> string \<Rightarrow> string \<Rightarrow> string \<Rightarrow> string \<Rightarrow> string \<Rightarrow> string \<Rightarrow>
     (error + SLA option) \<times> call list" where
  "queries_skuPickupSLA cl itemId' seller lat long country pickupId =
     (case queries_skuPickupSLAs cl itemId' seller lat long country of
        (Inl e, tr) \<Rightarrow> (Inl e, tr)
      | (Inr ss, tr) \<Rightarrow> (Inr (find (\<lambda>s. path_addressId s = Defined pickupId) ss), tr))"

section \<open>The add-item mutation\<close>

text \<open>\<open>Object.keys(sessionData)\<close>: a parameter group that is present is a key.\<close>

definition object_keys :: "SessionFields \<Rightarrow> string list" where
  "object_keys s =
     (if utmParams s = Undefined then [] else [''utmParams'']) @
     (if utmiParams s = Undefined then [] else [''utmiParams'']) @
     otherKeys s"

text \<open>
  The payload of the marketing-data update: a copy of the stored object (or \<open>{}\<close>), the six
  tracked fields overwritten from the session when the session object has a key, and the
  tags deleted when \<open>== null\<close> or filtered with \<open>Boolean\<close> when they are an array.
\<close>

definition newMarketingData :: "OrderFormMarketingData js \<Rightarrow> SessionFields \<Rightarrow> OrderFormMarketingData" where
  "newMarketingData marketingData' sessionData =
     (let copied = or_empty marketingData';
          assigned =
            (if length (object_keys sessionData) > 0 then
               copied\<lparr> utmCampaign := path_utm campaign sessionData,
                       utmMedium := path_utm medium sessionData,
                       utmSource := path_utm source sessionData,
                       utmiCampaign := path_utmi icampaign sessionData,
                       utmiPart := path_utmi part sessionData,
                       utmipage := path_utmi page sessionData \<rparr>
             else copied)
      in case marketingTags assigned of
           Defined tags \<Rightarrow> assigned\<lparr> marketingTags := Defined (filter truthy tags) \<rparr>
         | _ \<Rightarrow> assigned\<lparr> marketingTags := Undefined \<rparr>)"

text \<open>The test \<open>!!options && options.length > 0\<close> that selects \<open>withOptions\<close>.\<close>

definition has_options :: "OrderFormItemInput \<Rightarrow> bool" where
  "has_options item = (case options item of Defined os \<Rightarrow> length os > 0 | _ \<Rightarrow> False)"

text \<open>
  Modelled from the spec: \<open>addOptionsForItems\<close> of the attachments helper module is not
  among the sources. The specification says that for each item with options one follow-up
  call associates that item's options with the item just added, and that failures
  propagate to the caller. The calls are issued one after the other, on the order form that
  the add-item call returned.
\<close>

fun addOptionsForItems ::
  "Clients \<Rightarrow> OrderFormItemInput list \<Rightarrow> OrderForm \<Rightarrow> OrderFormItem list \<Rightarrow> call list \<Rightarrow>
     (error + unit) \<times> call list" where
  "addOptionsForItems cl [] addItem previousItems tr = (Inr (), tr)"
| "addOptionsForItems cl (item # rest) addItem previousItems tr =
     (let os = (case options item of Defined os \<Rightarrow> os | _ \<Rightarrow> []);
          tr' = tr @ [AttachOptionsCall (orderFormId addItem) (ItemFields.truncate item) os]
      in case await (checkout_attachOptions cl tr (orderFormId addItem)
                       (ItemFields.truncate item) os) of
           Inl e \<Rightarrow> (Inl e, tr')
         | Inr _ \<Rightarrow> addOptionsForItems cl rest addItem previousItems tr')"

text \<open>
  The mutation, in the order of the source: the input check; the order form and the session,
  both requested before either is awaited; the marketing-data update; the add-item call on
  the items without their options; the follow-up calls; the result.
\<close>

definition addItem_add ::
  "Clients \<Rightarrow> string \<Rightarrow> OrderFormItemInput list \<Rightarrow> string js \<Rightarrow> OrderFormItem list \<Rightarrow>
     call list \<Rightarrow> (error + OrderForm) \<times> call list" where
  "addItem_add cl orderFormId' items' salesChannel previousItems tr =
     (let cleanItems = map ItemFields.truncate items';
          withOptions = filter has_options items';
          tr1 = tr @ [AddItemCall orderFormId' cleanItems salesChannel]
      in case await (checkout_addItem cl tr orderFormId' cleanItems salesChannel) of
           Inl e \<Rightarrow> (Inl e, tr1)
         | Inr addItem \<Rightarrow>
             (case addOptionsForItems cl withOptions addItem previousItems tr1 of
                (Inl e, tr2) \<Rightarrow> (Inl e, tr2)
              | (Inr _, tr2) \<Rightarrow>
                  if length withOptions = 0 then (Inr addItem, tr2)
                  else (case await (checkout_orderForm cl tr2) of
                          Inl e \<Rightarrow> (Inl e, tr2 @ [OrderFormCall])
                        | Inr refetched \<Rightarrow> (Inr refetched, tr2 @ [OrderFormCall]))))"

definition addItem_marketing ::
  "Clients \<Rightarrow> string \<Rightarrow> OrderFormItemInput list \<Rightarrow> string js \<Rightarrow> OrderForm \<Rightarrow> SessionFields \<Rightarrow>
     call list \<Rightarrow> (error + OrderForm) \<times> call list" where
  "addItem_marketing cl orderFormId' items' salesChannel fetched sessionData tr =
     (if is_truthy (shouldUpdateMarketingData (marketingData fetched) sessionData) then
        (let payload = newMarketingData (marketingData fetched) sessionData;
             tr' = tr @ [UpdateOrderFormMarketingDataCall orderFormId' payload]
         in case await (checkout_updateOrderFormMarketingData cl tr orderFormId' payload) of
              Inl e \<Rightarrow> (Inl e, tr')
            | Inr _ \<Rightarrow> addItem_add cl orderFormId' items' salesChannel (items fetched) tr')
      else addItem_add cl orderFormId' items' salesChannel (items fetched) tr)"

text \<open>
  \<open>Promise.all([checkout.orderForm(), getSession(ctx)])\<close>: the two calls are made in this
  order. If the first throws, the second is never made; a rejected promise of either
  rejects the whole (when both are rejected, the model reports the order form's error).
\<close>

definition mutations_addItem :: "Clients \<Rightarrow> AddItemArgs \<Rightarrow> (error + OrderForm) \<times> call list" where
  "mutations_addItem cl args =
     (case arg_orderFormId args of
        Defined orderFormId' \<Rightarrow>
          (case arg_items args of
             Defined items' \<Rightarrow>
               (case checkout_orderForm cl [] of
                  Throws e \<Rightarrow> (Inl (UpstreamError e), [OrderFormCall])
                | fetching \<Rightarrow>
                    (let tr = [OrderFormCall, GetSessionCall] in
                     case await fetching of
                       Inl e \<Rightarrow> (Inl e, tr)
                     | Inr fetched \<Rightarrow>
                         (case await (getSession cl [OrderFormCall]) of
                            Inl e \<Rightarrow> (Inl e, tr)
                          | Inr sessionData \<Rightarrow>
                              addItem_marketing cl orderFormId' items' (arg_salesChannel args)
                                fetched sessionData tr)))
           | _ \<Rightarrow> (Inl (UserInputError ''No order form id or items to add provided''), []))
      | _ \<Rightarrow> (Inl (UserInputError ''No order form id or items to add provided''), []))"

section \<open>Notions used to state the properties\<close>

text \<open>The six session fields, and the six stored fields in the corresponding order.\<close>

definition session_values :: "SessionFields \<Rightarrow> string js list" where
  "session_values s =
     (let p = getSessionMarketingParams s
      in [utm_source p, utm_campaign p, utm_medium p, utmi_campaign p, utmi_part p, utmi_page p])"

definition stored_values :: "OrderFormMarketingData js \<Rightarrow> string js list" where
  "stored_values m =
     (let st = or_empty m
      in [utmSource st, utmCampaign st, utmMedium st, utmiCampaign st, utmiPart st, utmipage st])"

text \<open>
  Having no value: a property that is absent or \<open>null\<close>. A stored field and a session field
  differ when one has a value the other lacks, or when both have a value and the values
  are not equal; two fields without a value do not differ.
\<close>

fun nullish :: "'a js \<Rightarrow> bool" where
  "nullish (Defined _) = False"
| "nullish _ = True"

fun differs :: "string js \<Rightarrow> string js \<Rightarrow> bool" where
  "differs (Defined a) (Defined b) = (a \<noteq> b)"
| "differs (Defined a) _ = True"
| "differs _ (Defined b) = True"
| "differs _ _ = False"

text \<open>
  The sessions on which the comparison is settled here: no field is absent from the session
  while the stored field has no value.
\<close>

definition session_fields_settled :: "OrderFormMarketingData js \<Rightarrow> SessionFields \<Rightarrow> bool" where
  "session_fields_settled m s =
     list_all (\<lambda>(a, b). \<not> (b = Undefined \<and> nullish a)) (zip (stored_values m) (session_values s))"

text \<open>The name of a cookie line: the text before its first equals sign.\<close>

definition cookie_name :: "string \<Rightarrow> string" where
  "cookie_name line = takeWhile (\<lambda>c. c \<noteq> CHR ''='') line"

text \<open>
  The text after the leftmost \<open>domain=\<close> of a cookie line, and the domain attribute: that
  text up to the next semicolon. Both are none for a line without \<open>domain=\<close>.
\<close>

fun after_domain :: "string \<Rightarrow> string option" where
  "after_domain [] = None"
| "after_domain (c # cs) =
     (if take 7 (c # cs) = ''domain='' then Some (drop 7 (c # cs)) else after_domain cs)"

definition domain_attribute :: "string \<Rightarrow> string option" where
  "domain_attribute line = map_option (takeWhile (\<lambda>c. c \<noteq> CHR '';'')) (after_domain line)"

text \<open>The follow-up call that attaches the options of one item.\<close>

definition attach_call :: "OrderForm \<Rightarrow> OrderFormItemInput \<Rightarrow> call" where
  "attach_call added item =
     AttachOptionsCall (orderFormId added) (ItemFields.truncate item)
       (case options item of Defined os \<Rightarrow> os | _ \<Rightarrow> [])"

fun is_addItem_call :: "call \<Rightarrow> bool" where
  "is_addItem_call (AddItemCall _ _ _) = True"
| "is_addItem_call _ = False"

fun is_attach_call :: "call \<Rightarrow> bool" where
  "is_attach_call (AttachOptionsCall _ _ _) = True"
| "is_attach_call _ = False"

fun is_marketing_call :: "call \<Rightarrow> bool" where
  "is_marketing_call (UpdateOrderFormMarketingDataCall _ _) = True"
| "is_marketing_call _ = False"

section \<open>Example inputs\<close>

definition session_source_a :: SessionFields where
  "session_source_a =
     \<lparr> utmParams = Defined \<lparr> source = Defined ''a'', campaign = Undefined, medium = Undefined \<rparr>,
       utmiParams = Undefined, otherKeys = [] \<rparr>"

definition session_source_blank :: SessionFields where
  "session_source_blank =
     \<lparr> utmParams = Defined \<lparr> source = Defined [], campaign = Undefined, medium = Undefined \<rparr>,
       utmiParams = Undefined, otherKeys = [] \<rparr>"

definition stored_source_b :: OrderFormMarketingData where
  "stored_source_b =
     \<lparr> utmCampaign = Null, utmMedium = Null, utmSource = Defined ''b'',
       utmiCampaign = Null, utmiPart = Null, utmipage = Null,
       marketingTags = Defined [Defined ''tag'', Null, Defined []],
       otherFields = [(''coupon'', ''SAVE10'')] \<rparr>"

definition form_fetched :: OrderForm where
  "form_fetched =
     \<lparr> orderFormId = ''form-1'', items = [], marketingData = Defined stored_source_b,
       clientPreferencesData = Defined \<lparr> pref_locale = Defined ''en-US'', otherPreferences = [] \<rparr> \<rparr>"

definition form_added :: OrderForm where
  "form_added =
     form_fetched\<lparr> items := [\<lparr> itemId = ''1'', itemQuantity = 1, itemSeller = ''1'' \<rparr>] \<rparr>"

definition form_refetched :: OrderForm where
  "form_refetched =
     form_fetched\<lparr> items := [\<lparr> itemId = ''1'', itemQuantity = 1, itemSeller = ''1'' \<rparr>,
                            \<lparr> itemId = ''9'', itemQuantity = 1, itemSeller = ''1'' \<rparr>] \<rparr>"

definition form_without_preferences :: OrderForm where
  "form_without_preferences = form_fetched\<lparr> clientPreferencesData := Null \<rparr>"

definition item_plain :: OrderFormItemInput where
  "item_plain =
     \<lparr> inputId = ''1'', inputIndex = Undefined, inputQuantity = 1, inputSeller = ''1'',
       options = Undefined \<rparr>"

definition item_bundle :: OrderFormItemInput where
  "item_bundle =
     \<lparr> inputId = ''2'', inputIndex = Undefined, inputQuantity = 1, inputSeller = ''1'',
       options = Defined [\<lparr> assemblyId = ''add-on'', optionId = ''9'', optionQuantity = 1,
                            optionSeller = ''1'' \<rparr>] \<rparr>"

definition sla_pickup_X :: SLA where
  "sla_pickup_X =
     \<lparr> slaId = ''pickup'', deliveryChannel = Defined ''pickup-in-point'',
       pickupStoreInfo = Defined \<lparr> address = Defined \<lparr> addressId = Defined ''X'' \<rparr> \<rparr> \<rparr>"

definition sla_delivery :: SLA where
  "sla_delivery =
     \<lparr> slaId = ''normal'', deliveryChannel = Defined ''delivery'', pickupStoreInfo = Undefined \<rparr>"

definition simulation_two_slas :: Simulation where
  "simulation_two_slas =
     \<lparr> logisticsInfo = Defined [\<lparr> slas = Defined [sla_pickup_X, sla_delivery] \<rparr>] \<rparr>"

definition response_cookies :: RawResponse where
  "response_cookies =
     \<lparr> headers = Defined \<lparr> set_cookie = Defined
         [''checkout.vtex.com=__ofid=form-1; domain=vtex.com; path=/'',
          ''tracking=xyz; domain=vtex.com'',
          ''.ASPXAUTH=token; path=/''] \<rparr>,
       data = form_fetched \<rparr>"

text \<open>
  Upstream clients that answer every call: the first fetch of the order form gives
  \<open>form_fetched\<close>, a later one \<open>form_refetched\<close>.
\<close>

definition answering_clients :: Clients where
  "answering_clients =
     \<lparr> checkout_orderForm = (\<lambda>h. if h = [] then Resolves form_fetched else Resolves form_refetched),
       checkout_orderFormRaw = (\<lambda>h. Resolves response_cookies),
       checkout_updateOrderFormClientPreferencesData =
         (\<lambda>h i p. Resolves (form_fetched\<lparr> clientPreferencesData := Defined p \<rparr>)),
       checkout_updateOrderFormMarketingData =
         (\<lambda>h i m. Resolves (form_fetched\<lparr> marketingData := Defined m \<rparr>)),
       checkout_addItem = (\<lambda>h i its sc. Resolves form_added),
       checkout_attachOptions = (\<lambda>h i it os. Resolves form_refetched),
       checkout_simulation = (\<lambda>h a. Resolves simulation_two_slas),
       sessionQueries_getSession = (\<lambda>h. Resolves session_source_a) \<rparr>"

text \<open>The same clients with a session service whose promise is rejected.\<close>

definition clients_session_rejected :: Clients where
  "clients_session_rejected =
     answering_clients\<lparr> sessionQueries_getSession := (\<lambda>h. Rejects ''session unavailable'') \<rparr>"

text \<open>The same clients with a preferences update that fails.\<close>

definition clients_update_rejected :: Clients where
  "clients_update_rejected =
     answering_clients\<lparr> checkout_updateOrderFormClientPreferencesData :=
                          (\<lambda>h i p. Rejects ''update failed'') \<rparr>"

definition clients_without_preferences :: Clients where
  "clients_without_preferences =
     answering_clients\<lparr> checkout_orderFormRaw :=
                          (\<lambda>h. Resolves (response_cookies\<lparr> data := form_without_preferences \<rparr>)) \<rparr>"

definition context_pt :: Context where
  "context_pt = \<lparr> segment = Defined \<lparr> cultureInfo = Defined ''pt-BR'' \<rparr>,
                  x_forwarded_host = ''store.example.com'' \<rparr>"

definition args_plain :: AddItemArgs where
  "args_plain = \<lparr> arg_orderFormId = Defined ''form-1'', arg_items = Defined [item_plain],
                  arg_salesChannel = Undefined \<rparr>"

definition args_bundle :: AddItemArgs where
  "args_bundle = \<lparr> arg_orderFormId = Defined ''form-1'',
                   arg_items = Defined [item_plain, item_bundle],
                   arg_salesChannel = Undefined \<rparr>"

definition args_without_items :: AddItemArgs where
  "args_without_items = \<lparr> arg_orderFormId = Defined ''form-1'', arg_items = Null,
                          arg_salesChannel = Undefined \<rparr>"

definition session_all_six :: SessionFields where
  "session_all_six =
     \<lparr> utmParams = Defined \<lparr> source = Defined ''news'', campaign = Defined ''spring'',
                              medium = Defined ''email'' \<rparr>,
       utmiParams = Defined \<lparr> icampaign = Defined ''banner'', part = Defined ''top'',
                               page = Defined ''home'' \<rparr>,
       otherKeys = [''id''] \<rparr>"

definition stored_source_a :: OrderFormMarketingData where
  "stored_source_a =
     \<lparr> utmCampaign = Null, utmMedium = Null, utmSource = Defined ''a'',
       utmiCampaign = Null, utmiPart = Null, utmipage = Null,
       marketingTags = Null, otherFields = [] \<rparr>"

definition stored_all_six :: OrderFormMarketingData where
  "stored_all_six =
     \<lparr> utmCampaign = Defined ''spring'', utmMedium = Defined ''email'',
       utmSource = Defined ''news'', utmiCampaign = Defined ''banner'',
       utmiPart = Defined ''top'', utmipage = Defined ''home'',
       marketingTags = Null, otherFields = [] \<rparr>"

section \<open>Auxiliary facts\<close>

lemmas example_defs = answering_clients_def args_plain_def args_bundle_def args_without_items_def
  clients_session_rejected_def clients_update_rejected_def clients_without_preferences_def
  form_fetched_def form_added_def form_refetched_def form_without_preferences_def
  session_source_a_def session_source_blank_def stored_source_b_def session_all_six_def
  stored_all_six_def item_plain_def item_bundle_def context_pt_def response_cookies_def
  sla_pickup_X_def sla_delivery_def simulation_two_slas_def

lemmas marketing_defs = shouldUpdateMarketingData_def getSessionMarketingParams_def
  path_utm_def path_utmi_def js_or_def js_and_def session_values_def stored_values_def

lemmas addItem_defs = mutations_addItem_def addItem_marketing_def addItem_add_def getSession_def
  newMarketingData_def object_keys_def has_options_def ItemFields.truncate_def attach_call_def
  Let_def

lemma await_not_UserInputError: "await x = Inl e \<Longrightarrow> e \<noteq> UserInputError msg"
  by (cases x) auto

lemma addOptionsForItems_not_UserInputError:
  "addOptionsForItems cl ws added prev tr = (Inl e, tr') \<Longrightarrow> e \<noteq> UserInputError msg"
proof (induction ws arbitrary: tr)
  case Nil
  then show ?case by simp
next
  case (Cons w ws)
  then show ?case
    by (auto simp: Let_def split: sum.splits dest: await_not_UserInputError)
qed

lemma addItem_add_not_UserInputError:
  "addItem_add cl oid its sc prev tr = (Inl e, tr') \<Longrightarrow> e \<noteq> UserInputError msg"
  unfolding addItem_add_def Let_def
  by (auto split: sum.splits prod.splits if_splits
      dest: await_not_UserInputError addOptionsForItems_not_UserInputError)

lemma addItem_marketing_not_UserInputError:
  "addItem_marketing cl oid its sc fetched sess tr = (Inl e, tr') \<Longrightarrow> e \<noteq> UserInputError msg"
  unfolding addItem_marketing_def Let_def
  by (auto split: sum.splits if_splits
      dest: await_not_UserInputError addItem_add_not_UserInputError)

section \<open>The marketing-data decision\<close>

text \<open>What the function computes, in the terms of its own comparison.\<close>

lemma shouldUpdateMarketingData_true_iff:
  "shouldUpdateMarketingData m s = JBool True \<longleftrightarrow>
     (\<exists>v \<in> set (session_values s). truthy v) \<and>
     (\<exists>(a, b) \<in> set (zip (stored_values m) (session_values s)). default_null a \<noteq> b)"
  unfolding shouldUpdateMarketingData_def session_values_def stored_values_def Let_def
    js_and_def js_or_def
  by (simp, blast)

lemma differs_strict: "differs a b \<Longrightarrow> default_null a \<noteq> b"
  by (cases a; cases b) auto

lemma strict_differs: "\<not> (b = Undefined \<and> nullish a) \<Longrightarrow> default_null a \<noteq> b \<Longrightarrow> differs a b"
  by (cases a; cases b) auto

text \<open>
  Claim C2, with truthiness in place of non-null. A session with a truthy field (present,
  not \<open>null\<close> and not the empty string) and a field that differs from the stored one makes
  \<open>shouldUpdateMarketingData\<close> return \<open>true\<close>; a session without a truthy field does not.
  Where no session field is absent against a stored field without a value, the function
  returns \<open>true\<close> exactly when a session field is truthy and a field differs.
\<close>

theorem shouldUpdateMarketingData_truthy_and_differs:
  "((\<exists>v \<in> set (session_values s). truthy v) \<and>
    (\<exists>(a, b) \<in> set (zip (stored_values m) (session_values s)). differs a b) \<longrightarrow>
      shouldUpdateMarketingData m s = JBool True) \<and>
   (\<not> (\<exists>v \<in> set (session_values s). truthy v) \<longrightarrow>
      shouldUpdateMarketingData m s \<noteq> JBool True) \<and>
   (session_fields_settled m s \<longrightarrow>
      (shouldUpdateMarketingData m s = JBool True \<longleftrightarrow>
         (\<exists>v \<in> set (session_values s). truthy v) \<and>
         (\<exists>(a, b) \<in> set (zip (stored_values m) (session_values s)). differs a b)))"
proof (intro conjI impI)
  assume "(\<exists>v \<in> set (session_values s). truthy v) \<and>
    (\<exists>(a, b) \<in> set (zip (stored_values m) (session_values s)). differs a b)"
  then show "shouldUpdateMarketingData m s = JBool True"
    unfolding shouldUpdateMarketingData_true_iff by (auto dest: differs_strict)
next
  assume "\<not> (\<exists>v \<in> set (session_values s). truthy v)"
  then show "shouldUpdateMarketingData m s \<noteq> JBool True"
    unfolding shouldUpdateMarketingData_true_iff by blast
next
  assume settled: "session_fields_settled m s"
  have "(\<exists>(a, b) \<in> set (zip (stored_values m) (session_values s)). default_null a \<noteq> b) \<longleftrightarrow>
        (\<exists>(a, b) \<in> set (zip (stored_values m) (session_values s)). differs a b)"
  proof
    assume "\<exists>(a, b) \<in> set (zip (stored_values m) (session_values s)). default_null a \<noteq> b"
    then obtain a b where ab: "(a, b) \<in> set (zip (stored_values m) (session_values s))"
      "default_null a \<noteq> b" by blast
    then have "\<not> (b = Undefined \<and> nullish a)"
      using settled unfolding session_fields_settled_def list_all_iff by blast
    then have "differs a b" using ab(2) by (rule strict_differs)
    then show "\<exists>(a, b) \<in> set (zip (stored_values m) (session_values s)). differs a b"
      using ab(1) by blast
  next
    assume "\<exists>(a, b) \<in> set (zip (stored_values m) (session_values s)). differs a b"
    then show "\<exists>(a, b) \<in> set (zip (stored_values m) (session_values s)). default_null a \<noteq> b"
      by (auto dest: differs_strict)
  qed
  then show "shouldUpdateMarketingData m s = JBool True \<longleftrightarrow>
         (\<exists>v \<in> set (session_values s). truthy v) \<and>
         (\<exists>(a, b) \<in> set (zip (stored_values m) (session_values s)). differs a b)"
    unfolding shouldUpdateMarketingData_true_iff by simp
qed

text \<open>
  The session \<open>{utm_source: "a"}\<close> against the stored \<open>{utmSource: "b"}\<close> triggers the
  update; a session whose six fields equal the six stored ones does not.
\<close>

theorem shouldUpdateMarketingData_truthy_and_differs_witness:
  "shouldUpdateMarketingData (Defined stored_source_b) session_source_a = JBool True \<and>
   session_fields_settled (Defined stored_all_six) session_all_six \<and>
   shouldUpdateMarketingData (Defined stored_all_six) session_all_six \<noteq> JBool True"
  using shouldUpdateMarketingData_truthy_and_differs [of session_source_a "Defined stored_source_b"]
        shouldUpdateMarketingData_truthy_and_differs [of session_all_six "Defined stored_all_six"]
  by (simp add: session_fields_settled_def session_values_def stored_values_def
      getSessionMarketingParams_def path_utm_def path_utmi_def session_source_a_def
      stored_source_b_def session_all_six_def stored_all_six_def)

text \<open>
  The inputs that the statement above leaves open: the session \<open>{utm_source: "a"}\<close> against
  the stored \<open>{utmSource: "a"}\<close> whose other fields are \<open>null\<close>.
\<close>

lemma shouldUpdateMarketingData_absent_session_fields:
  "\<not> session_fields_settled (Defined stored_source_a) session_source_a \<and>
   shouldUpdateMarketingData (Defined stored_source_a) session_source_a = JBool True"
  by (simp add: session_fields_settled_def session_values_def stored_values_def
      shouldUpdateMarketingData_def js_or_def js_and_def
      getSessionMarketingParams_def path_utm_def path_utmi_def session_source_a_def
      stored_source_a_def)

text \<open>
  A session whose \<open>utm_source\<close> is the empty string has a field that is not \<open>null\<close> and
  that differs from the stored \<open>"b"\<close>, and yet the function does not return \<open>true\<close>: the
  test on the session fields is truthiness.
\<close>

theorem shouldUpdateMarketingData_blank_counterexample:
  "utm_source (getSessionMarketingParams session_source_blank) = Defined [] \<and>
   utmSource (or_empty (Defined stored_source_b)) = Defined ''b'' \<and>
   shouldUpdateMarketingData (Defined stored_source_b) session_source_blank \<noteq> JBool True"
  by (simp add: shouldUpdateMarketingData_def getSessionMarketingParams_def path_utm_def
      path_utmi_def session_source_blank_def stored_source_b_def js_or_def js_and_def)

section \<open>Input validation of the add-item mutation\<close>

text \<open>
  Claim C7. When the order-form id or the item list is \<open>null\<close> or absent, the mutation
  fails with the input-validation error and has issued no upstream call. When both are
  present, the mutation never fails with an input-validation error.
\<close>

theorem addItem_input_validation:
  "(arg_orderFormId args \<in> {Undefined, Null} \<or> arg_items args \<in> {Undefined, Null} \<longrightarrow>
      mutations_addItem cl args =
        (Inl (UserInputError ''No order form id or items to add provided''), [])) \<and>
   (arg_orderFormId args \<notin> {Undefined, Null} \<and> arg_items args \<notin> {Undefined, Null} \<longrightarrow>
      (\<forall>msg. fst (mutations_addItem cl args) \<noteq> Inl (UserInputError msg)))"
proof (intro conjI impI allI)
  assume "arg_orderFormId args \<in> {Undefined, Null} \<or> arg_items args \<in> {Undefined, Null}"
  then show "mutations_addItem cl args =
        (Inl (UserInputError ''No order form id or items to add provided''), [])"
    by (auto simp: mutations_addItem_def split: js.splits)
next
  fix msg
  assume "arg_orderFormId args \<notin> {Undefined, Null} \<and> arg_items args \<notin> {Undefined, Null}"
  then obtain oid its where a: "arg_orderFormId args = Defined oid" "arg_items args = Defined its"
    by (cases "arg_orderFormId args"; cases "arg_items args") auto
  obtain r tr where r: "mutations_addItem cl args = (r, tr)"
    by (cases "mutations_addItem cl args")
  have "r \<noteq> Inl (UserInputError msg)"
    using r unfolding mutations_addItem_def a Let_def
    by (auto split: outcome.splits sum.splits
        dest: await_not_UserInputError addItem_marketing_not_UserInputError)
  then show "fst (mutations_addItem cl args) \<noteq> Inl (UserInputError msg)"
    by (simp add: r)
qed

theorem addItem_input_validation_witness:
  "mutations_addItem answering_clients args_without_items =
     (Inl (UserInputError ''No order form id or items to add provided''), []) \<and>
   fst (mutations_addItem answering_clients args_plain) \<noteq>
     Inl (UserInputError ''No order form id or items to add provided'')"
  using addItem_input_validation [of args_without_items answering_clients]
        addItem_input_validation [of args_plain answering_clients]
  by (simp add: args_without_items_def args_plain_def)

section \<open>Session retrieval failures\<close>

text \<open>
  Claim C3 at a failing input. The session service returns a promise that is rejected.
  \<open>getSession\<close> hands the rejection on instead of giving the empty session, and the
  add-item mutation fails with the session's error after its first two calls.
\<close>

theorem getSession_rejection_propagates:
  "getSession clients_session_rejected [OrderFormCall] = Rejects ''session unavailable'' \<and>
   mutations_addItem clients_session_rejected args_plain =
     (Inl (UpstreamError ''session unavailable''), [OrderFormCall, GetSessionCall])"
  by (simp add: addItem_defs marketing_defs example_defs)

text \<open>
  In general: an exception thrown by the session call itself is caught and gives the empty
  session, while a rejected promise fails the mutation once the order form has arrived.
\<close>

lemma getSession_catches_throw:
  "sessionQueries_getSession cl tr = Throws e \<Longrightarrow> getSession cl tr = Resolves emptySession"
  by (simp add: getSession_def)

lemma addItem_session_rejected:
  assumes "arg_orderFormId args = Defined oid" and "arg_items args = Defined its"
    and "checkout_orderForm cl [] = Resolves fetched"
    and "sessionQueries_getSession cl [OrderFormCall] = Rejects e"
  shows "mutations_addItem cl args = (Inl (UpstreamError e), [OrderFormCall, GetSessionCall])"
  using assms by (simp add: mutations_addItem_def getSession_def Let_def)

section \<open>Locale synchronisation\<close>

lemma syncWithStoreLocale_no_preferences:
  "clientPreferencesData orderForm \<in> {Undefined, Null} \<Longrightarrow>
     syncWithStoreLocale cl orderForm ci tr = (Inr orderForm, tr)"
  by (auto simp: syncWithStoreLocale_def Let_def)

lemma syncWithStoreLocale_resolves:
  "\<exists>r tr'. syncWithStoreLocale cl orderForm ci tr = (Inr r, tr')"
  by (auto simp: syncWithStoreLocale_def Let_def split: sum.splits)

text \<open>
  Claim C10. When the fetched order form has no client preferences (\<open>null\<close> or absent), the
  locale synchronisation issues no update, whatever the segment's culture info is: the
  \<open>orderForm\<close> query has made the raw fetch only, and it returns the fetched order form.
\<close>

theorem orderForm_without_preferences:
  assumes "checkout_orderFormRaw cl [] = Resolves resp"
    and "clientPreferencesData (data resp) \<in> {Undefined, Null}"
    and "segment ctx = Defined seg"
  shows "fst (queries_orderForm CHECKOUT_COOKIE parseCookie cl ctx) = Inr (data resp) \<and>
         fst (snd (queries_orderForm CHECKOUT_COOKIE parseCookie cl ctx)) = [OrderFormRawCall] \<and>
         syncWithStoreLocale cl (data resp) (cultureInfo seg) [OrderFormRawCall] =
           (Inr (data resp), [OrderFormRawCall])"
  using assms syncWithStoreLocale_no_preferences [of "data resp" cl "cultureInfo seg" "[OrderFormRawCall]"]
  by (simp add: queries_orderForm_def Let_def)

theorem orderForm_without_preferences_witness:
  "fst (queries_orderForm ''checkout.vtex.com'' id clients_without_preferences context_pt) =
     Inr form_without_preferences \<and>
   fst (snd (queries_orderForm ''checkout.vtex.com'' id clients_without_preferences context_pt)) =
     [OrderFormRawCall]"
  using orderForm_without_preferences [of clients_without_preferences
          "response_cookies\<lparr> data := form_without_preferences \<rparr>" context_pt
          "\<lparr> cultureInfo = Defined ''pt-BR'' \<rparr>" "''checkout.vtex.com''" id]
  by (simp add: clients_without_preferences_def answering_clients_def context_pt_def
      form_without_preferences_def)

lemma syncWithStoreLocale_failed_update:
  assumes "snd (syncWithStoreLocale cl orderForm ci tr) =
             tr @ [UpdateOrderFormClientPreferencesDataCall oid prefs]"
    and "await (checkout_updateOrderFormClientPreferencesData cl tr oid prefs) = Inl e"
  shows "fst (syncWithStoreLocale cl orderForm ci tr) = Inr orderForm"
  using assms
  by (auto simp: syncWithStoreLocale_def Let_def split: sum.splits if_splits)

text \<open>
  Claim C8. When the \<open>orderForm\<close> query has attempted the preferences update (the update is
  the call after the raw fetch) and the upstream fails on it, by throwing or by rejecting,
  the query returns the order form that the raw fetch gave.
\<close>

theorem orderForm_locale_sync_failure:
  assumes "checkout_orderFormRaw cl [] = Resolves resp"
    and "segment ctx = Defined seg"
    and "fst (snd (queries_orderForm CHECKOUT_COOKIE parseCookie cl ctx)) =
           [OrderFormRawCall, UpdateOrderFormClientPreferencesDataCall oid prefs]"
    and "await (checkout_updateOrderFormClientPreferencesData cl [OrderFormRawCall] oid prefs) = Inl e"
  shows "fst (queries_orderForm CHECKOUT_COOKIE parseCookie cl ctx) = Inr (data resp)"
proof -
  obtain r tr where s: "syncWithStoreLocale cl (data resp) (cultureInfo seg) [OrderFormRawCall] = (Inr r, tr)"
    using syncWithStoreLocale_resolves by blast
  have tr: "tr = [OrderFormRawCall] @ [UpdateOrderFormClientPreferencesDataCall oid prefs]"
    using assms(1,2,3) s by (simp add: queries_orderForm_def Let_def)
  have "r = data resp"
    using syncWithStoreLocale_failed_update [of cl "data resp" "cultureInfo seg" "[OrderFormRawCall]" oid prefs e]
      assms(4) s tr by simp
  then show ?thesis
    using assms(1,2) s by (simp add: queries_orderForm_def Let_def)
qed

theorem orderForm_locale_sync_failure_witness:
  "fst (queries_orderForm ''checkout.vtex.com'' id clients_update_rejected context_pt) =
     Inr form_fetched \<and>
   fst (snd (queries_orderForm ''checkout.vtex.com'' id clients_update_rejected context_pt)) =
     [OrderFormRawCall, UpdateOrderFormClientPreferencesDataCall ''form-1''
        \<lparr> pref_locale = Defined ''pt-BR'', otherPreferences = [] \<rparr>]"
proof -
  have tr: "fst (snd (queries_orderForm ''checkout.vtex.com'' id clients_update_rejected context_pt)) =
     [OrderFormRawCall, UpdateOrderFormClientPreferencesDataCall ''form-1''
        \<lparr> pref_locale = Defined ''pt-BR'', otherPreferences = [] \<rparr>]"
    by (simp add: queries_orderForm_def syncWithStoreLocale_def Let_def example_defs)
  have raw: "checkout_orderFormRaw clients_update_rejected [] = Resolves response_cookies"
    by (simp add: clients_update_rejected_def answering_clients_def)
  have seg: "segment context_pt = Defined \<lparr> cultureInfo = Defined ''pt-BR'' \<rparr>"
    by (simp add: context_pt_def)
  have fails: "await (checkout_updateOrderFormClientPreferencesData clients_update_rejected
      [OrderFormRawCall] ''form-1'' \<lparr> pref_locale = Defined ''pt-BR'', otherPreferences = [] \<rparr>) =
      Inl (UpstreamError ''update failed'')"
    by (simp add: clients_update_rejected_def answering_clients_def)
  have "fst (queries_orderForm ''checkout.vtex.com'' id clients_update_rejected context_pt) =
     Inr (data response_cookies)"
    using orderForm_locale_sync_failure [OF raw seg tr fails] .
  then show ?thesis using tr by (simp add: response_cookies_def)
qed

section \<open>The cookie whitelist\<close>

lemma hd_split_on:
  "\<exists>rest. split_on sep s = takeWhile (\<lambda>c. c \<noteq> sep) s # rest"
  by (induction s) (auto split: list.splits)

lemma isWhitelistedSetCookie_name:
  "isWhitelistedSetCookie CHECKOUT_COOKIE line \<longleftrightarrow>
     cookie_name line = CHECKOUT_COOKIE \<or> cookie_name line = ''.ASPXAUTH''"
proof -
  obtain rest where "split_on (CHR ''='') line = cookie_name line # rest"
    unfolding cookie_name_def using hd_split_on by blast
  then show ?thesis
    by (auto simp: isWhitelistedSetCookie_def SetCookieWhitelist_def)
qed

text \<open>
  Claim C5. The cookies that the \<open>orderForm\<close> query sets on the response are the inbound
  \<open>Set-Cookie\<close> lines whose name is \<open>CHECKOUT_COOKIE\<close> or \<open>.ASPXAUTH\<close>, each cleaned and
  parsed, in their order: every line with another name is dropped and every line with
  one of the two names is forwarded.
\<close>

theorem orderForm_cookie_whitelist:
  assumes "checkout_orderFormRaw cl [] = Resolves resp"
    and "segment ctx = Defined seg"
    and "headers resp = Defined rawHeaders"
    and "set_cookie rawHeaders = Defined lines"
  shows "snd (snd (queries_orderForm CHECKOUT_COOKIE parseCookie cl ctx)) =
           map (parseCookie \<circ> replaceDomain (x_forwarded_host ctx))
             (filter (\<lambda>line. cookie_name line = CHECKOUT_COOKIE \<or> cookie_name line = ''.ASPXAUTH'')
                lines)"
proof -
  obtain r tr where "syncWithStoreLocale cl (data resp) (cultureInfo seg) [OrderFormRawCall] = (Inr r, tr)"
    using syncWithStoreLocale_resolves by blast
  moreover have "filter (isWhitelistedSetCookie CHECKOUT_COOKIE) lines =
      filter (\<lambda>line. cookie_name line = CHECKOUT_COOKIE \<or> cookie_name line = ''.ASPXAUTH'') lines"
    by (rule filter_cong) (simp_all add: isWhitelistedSetCookie_name)
  ultimately show ?thesis
    using assms by (simp add: queries_orderForm_def Let_def)
qed

theorem orderForm_cookie_whitelist_witness:
  "snd (snd (queries_orderForm ''checkout.vtex.com'' id answering_clients context_pt)) =
     map (replaceDomain ''store.example.com'')
       [''checkout.vtex.com=__ofid=form-1; domain=vtex.com; path=/'', ''.ASPXAUTH=token; path=/'']"
  using orderForm_cookie_whitelist [of answering_clients response_cookies context_pt
          "\<lparr> cultureInfo = Defined ''pt-BR'' \<rparr>"
          "\<lparr> set_cookie = Defined
             [''checkout.vtex.com=__ofid=form-1; domain=vtex.com; path=/'',
              ''tracking=xyz; domain=vtex.com'',
              ''.ASPXAUTH=token; path=/''] \<rparr>"
          "[''checkout.vtex.com=__ofid=form-1; domain=vtex.com; path=/'',
              ''tracking=xyz; domain=vtex.com'',
              ''.ASPXAUTH=token; path=/'']"
          "''checkout.vtex.com''" id]
  by (simp add: answering_clients_def response_cookies_def context_pt_def cookie_name_def)

section \<open>Pickup SLAs of a simulation\<close>

lemma find_Some_member: "find P xs = Some x \<Longrightarrow> x \<in> set xs \<and> P x"
  by (induction xs) (auto split: if_splits)

text \<open>
  Claim C4. From the SLAs of the first logistics-info entry of the simulation result,
  \<open>skuPickupSLAs\<close> returns exactly those whose delivery channel is \<open>pickup-in-point\<close>, in
  their order. \<open>skuPickupSLA\<close> returns the first of those whose nested address id equals
  \<open>pickupId\<close>: it returns none when none of them has that id, and what it returns is one
  of them and has that id.
\<close>

theorem skuPickupSLAs_first_entry:
  assumes "checkout_simulation cl [] (simulation_args itemId' seller lat long country) = Resolves sim"
    and "logisticsInfo sim = Defined (entry # others)"
    and "slas entry = Defined ss"
  shows "fst (queries_skuPickupSLAs cl itemId' seller lat long country) =
           Inr (filter (\<lambda>sla. deliveryChannel sla = Defined ''pickup-in-point'') ss) \<and>
         fst (queries_skuPickupSLA cl itemId' seller lat long country pickupId) =
           Inr (find (\<lambda>sla. path_addressId sla = Defined pickupId)
                  (filter (\<lambda>sla. deliveryChannel sla = Defined ''pickup-in-point'') ss)) \<and>
         ((\<forall>sla \<in> set ss. deliveryChannel sla = Defined ''pickup-in-point'' \<longrightarrow>
                path_addressId sla \<noteq> Defined pickupId) \<longrightarrow>
            fst (queries_skuPickupSLA cl itemId' seller lat long country pickupId) = Inr None) \<and>
         (\<forall>sla. fst (queries_skuPickupSLA cl itemId' seller lat long country pickupId) = Inr (Some sla) \<longrightarrow>
            sla \<in> set ss \<and> deliveryChannel sla = Defined ''pickup-in-point'' \<and>
            path_addressId sla = Defined pickupId)"
proof -
  let ?pickups = "filter (\<lambda>sla. deliveryChannel sla = Defined ''pickup-in-point'') ss"
  have list: "queries_skuPickupSLAs cl itemId' seller lat long country =
      (Inr ?pickups, [SimulationCall (simulation_args itemId' seller lat long country)])"
    using assms by (simp add: queries_skuPickupSLAs_def pathOr_slas_def Let_def)
  have one: "fst (queries_skuPickupSLA cl itemId' seller lat long country pickupId) =
      Inr (find (\<lambda>s. path_addressId s = Defined pickupId) ?pickups)"
    by (simp add: queries_skuPickupSLA_def list)
  have none: "(\<forall>sla \<in> set ss. deliveryChannel sla = Defined ''pickup-in-point'' \<longrightarrow>
                path_addressId sla \<noteq> Defined pickupId) \<longrightarrow>
            find (\<lambda>s. path_addressId s = Defined pickupId) ?pickups = None"
    by (auto simp: find_None_iff)
  have some: "\<forall>sla. find (\<lambda>s. path_addressId s = Defined pickupId) ?pickups = Some sla \<longrightarrow>
            sla \<in> set ss \<and> deliveryChannel sla = Defined ''pickup-in-point'' \<and>
            path_addressId sla = Defined pickupId"
    by (auto dest: find_Some_member)
  have all: "fst (queries_skuPickupSLAs cl itemId' seller lat long country) = Inr ?pickups"
    by (simp add: list)
  show ?thesis
    unfolding one sum.inject
    by (intro conjI all refl none some)
qed

theorem skuPickupSLAs_first_entry_witness:
  "fst (queries_skuPickupSLAs answering_clients ''1'' ''1'' ''0'' ''0'' ''BRA'') = Inr [sla_pickup_X] \<and>
   fst (queries_skuPickupSLA answering_clients ''1'' ''1'' ''0'' ''0'' ''BRA'' ''X'') = Inr (Some sla_pickup_X) \<and>
   fst (queries_skuPickupSLA answering_clients ''1'' ''1'' ''0'' ''0'' ''BRA'' ''Y'') = Inr None"
proof -
  have sim: "checkout_simulation answering_clients [] (simulation_args ''1'' ''1'' ''0'' ''0'' ''BRA'') =
      Resolves simulation_two_slas"
    by (simp add: answering_clients_def)
  have li: "logisticsInfo simulation_two_slas = Defined (\<lparr> slas = Defined [sla_pickup_X, sla_delivery] \<rparr> # [])"
    by (simp add: simulation_two_slas_def)
  have ss: "slas \<lparr> slas = Defined [sla_pickup_X, sla_delivery] \<rparr> = Defined [sla_pickup_X, sla_delivery]"
    by simp
  note t = skuPickupSLAs_first_entry [OF sim li ss]
  have x: "fst (queries_skuPickupSLA answering_clients ''1'' ''1'' ''0'' ''0'' ''BRA'' ''X'') =
      Inr (Some sla_pickup_X)"
    using t [of "''X''", THEN conjunct2, THEN conjunct1]
    by (simp add: sla_pickup_X_def sla_delivery_def path_addressId_def)
  have y: "fst (queries_skuPickupSLA answering_clients ''1'' ''1'' ''0'' ''0'' ''BRA'' ''Y'') = Inr None"
    using t [of "''Y''", THEN conjunct2, THEN conjunct1]
    by (simp add: sla_pickup_X_def sla_delivery_def path_addressId_def)
  have l: "fst (queries_skuPickupSLAs answering_clients ''1'' ''1'' ''0'' ''0'' ''BRA'') = Inr [sla_pickup_X]"
    using t [of "''X''", THEN conjunct1]
    by (simp add: sla_pickup_X_def sla_delivery_def)
  show ?thesis using l x y by simp
qed

text \<open>A simulation without logistics info, or whose first entry has no SLAs, gives no SLA.\<close>

lemma skuPickupSLAs_without_slas:
  assumes "checkout_simulation cl [] (simulation_args itemId' seller lat long country) = Resolves sim"
    and "logisticsInfo sim \<in> {Undefined, Null, Defined []} \<or>
         (\<exists>entry others. logisticsInfo sim = Defined (entry # others) \<and>
            slas entry \<in> {Undefined, Null})"
  shows "fst (queries_skuPickupSLAs cl itemId' seller lat long country) = Inr []"
  using assms by (auto simp: queries_skuPickupSLAs_def pathOr_slas_def Let_def)

section \<open>Rewriting the cookie domain\<close>

lemma get_substitution_no_dollar:
  "CHR ''$'' \<notin> set t \<Longrightarrow> get_substitution m b a g t = t"
  by (induction m b a g t rule: get_substitution.induct) auto

lemma lazy_rest_append: "lazy_rest s = Some (m, g, r) \<Longrightarrow> s = m @ r"
  by (induction s arbitrary: m) (auto split: if_splits option.splits)

lemma lazy_rest_total:
  "\<forall>c \<in> set s. \<not> is_line_terminator c \<Longrightarrow> \<exists>m g r. lazy_rest s = Some (m, g, r)"
  by (induction s) auto

lemma match_here_append:
  assumes "match_here s = Some (m, g, r)"
  shows "s = m @ r \<and> take 7 m = ''domain=''"
proof -
  have p: "take 7 s = ''domain=''"
    using assms by (auto simp: match_here_def split: if_splits)
  obtain c cs where d: "drop 7 s = c # cs"
    using assms p by (cases "drop 7 s") (auto simp: match_here_def)
  obtain m' where l: "lazy_rest cs = Some (m', g, r)" and m: "m = ''domain='' @ c # m'"
    using assms p d by (auto simp: match_here_def split: if_splits option.splits)
  have "s = take 7 s @ drop 7 s" by simp
  also have "\<dots> = ''domain='' @ c # (m' @ r)"
    using p d lazy_rest_append [OF l] by simp
  finally show ?thesis using m by simp
qed

lemma match_here_None: "take 7 s \<noteq> ''domain='' \<Longrightarrow> match_here s = None"
  by (simp add: match_here_def)

lemma regex_exec_pre:
  "regex_exec pre s =
     (case regex_exec [] s of None \<Rightarrow> None | Some (b, m, g, a) \<Rightarrow> Some (pre @ b, m, g, a))"
proof (induction s arbitrary: pre)
  case Nil
  show ?case by simp
next
  case (Cons c cs)
  show ?case
  proof (cases "match_here (c # cs)")
    case None
    then show ?thesis
      using Cons.IH [of "pre @ [c]"] Cons.IH [of "[c]"]
      by (cases "regex_exec [] cs") auto
  next
    case (Some t)
    then show ?thesis by (cases t) auto
  qed
qed

lemma replaceDomain_Nil: "replaceDomain h [] = []"
  by (simp add: replaceDomain_def)

lemma replaceDomain_Cons:
  assumes "CHR ''$'' \<notin> set h"
  shows "replaceDomain h (c # cs) =
           (case match_here (c # cs) of
              Some (m, g, r) \<Rightarrow> ''domain='' @ h @ '';'' @ r
            | None \<Rightarrow> c # replaceDomain h cs)"
proof -
  have t: "\<And>m b a g. get_substitution m b a g (''domain='' @ h @ '';'') = ''domain='' @ h @ '';''"
    using assms by (intro get_substitution_no_dollar) auto
  show ?thesis
    unfolding replaceDomain_def t
    by (cases "match_here (c # cs)"; cases "regex_exec [] cs")
       (auto simp: regex_exec_pre [of "[c]"])
qed

lemma regex_exec_no_domain: "after_domain s = None \<Longrightarrow> regex_exec pre s = None"
  by (induction s arbitrary: pre) (auto simp: match_here_None split: if_splits)

lemma replaceDomain_no_domain: "after_domain s = None \<Longrightarrow> replaceDomain h s = s"
  by (simp add: replaceDomain_def regex_exec_no_domain)

lemma take_7_domain: "take 7 m = ''domain='' \<Longrightarrow> take 7 (m @ r) = ''domain=''"
proof -
  assume a: "take 7 m = ''domain=''"
  then have "length (take 7 m) = 7" by simp
  then have "7 \<le> length m" by simp
  then show ?thesis using a by simp
qed

lemma take_7_replaceDomain:
  assumes "CHR ''$'' \<notin> set h"
  shows "take 7 (replaceDomain h s) = take 7 s"
proof (induction s)
  case Nil
  show ?case by (simp add: replaceDomain_Nil)
next
  case (Cons c cs)
  show ?case
  proof (cases "match_here (c # cs)")
    case None
    have "take 6 (replaceDomain h cs) = take 6 (take 7 (replaceDomain h cs))" by simp
    also have "\<dots> = take 6 cs" by (simp add: Cons.IH)
    finally show ?thesis
      using None by (simp add: replaceDomain_Cons [OF assms] take_Cons')
  next
    case (Some t)
    obtain m g r where t: "t = (m, g, r)" by (cases t)
    have "take 7 (c # cs) = ''domain=''"
      using match_here_append [of "c # cs" m g r] Some t take_7_domain [of m r] by simp
    then show ?thesis
      using Some t by (simp add: replaceDomain_Cons [OF assms])
  qed
qed

lemma domain_attribute_replaceDomain:
  assumes "CHR ''$'' \<notin> set h" and "CHR '';'' \<notin> set h"
  shows "\<forall>c \<in> set s. \<not> is_line_terminator c \<Longrightarrow> after_domain s = Some rest \<Longrightarrow> rest \<noteq> [] \<Longrightarrow>
         domain_attribute (replaceDomain h s) = Some h"
proof (induction s)
  case Nil
  then show ?case by simp
next
  case (Cons c cs)
  show ?case
  proof (cases "take 7 (c # cs) = ''domain=''")
    case True
    then have rest: "rest = drop 7 (c # cs)" using Cons.prems(2) by simp
    then obtain d ds where d: "drop 7 (c # cs) = d # ds"
      using Cons.prems(3) by (cases "drop 7 (c # cs)") auto
    have "set (d # ds) \<subseteq> set (c # cs)"
      using set_drop_subset [of 7 "c # cs"] d by simp
    then have nolt: "\<not> is_line_terminator d" "\<forall>x \<in> set ds. \<not> is_line_terminator x"
      using Cons.prems(1) by auto
    obtain m g r where l: "lazy_rest ds = Some (m, g, r)"
      using lazy_rest_total [OF nolt(2)] by blast
    have "match_here (c # cs) = Some (''domain='' @ d # m, g, r)"
      using True d l nolt(1) by (simp add: match_here_def)
    then have "replaceDomain h (c # cs) = ''domain='' @ h @ '';'' @ r"
      by (simp add: replaceDomain_Cons [OF assms(1)])
    then show ?thesis
      using assms(2) by (simp add: domain_attribute_def takeWhile_append)
  next
    case False
    then have m: "match_here (c # cs) = None" by (rule match_here_None)
    have "take 6 (replaceDomain h cs) = take 6 (take 7 (replaceDomain h cs))" by simp
    also have "\<dots> = take 6 cs" by (simp add: take_7_replaceDomain [OF assms(1)])
    finally have "take 7 (c # replaceDomain h cs) = take 7 (c # cs)"
      by (simp add: take_Cons')
    then have "take 7 (c # replaceDomain h cs) \<noteq> ''domain=''"
      using False by (simp only:) simp
    then have "after_domain (c # replaceDomain h cs) = after_domain (replaceDomain h cs)"
      by (simp only: after_domain.simps if_False)
    moreover have "after_domain cs = Some rest"
      using Cons.prems(2) False by (simp only: after_domain.simps if_False)
    then have "domain_attribute (replaceDomain h cs) = Some h"
      using Cons.IH Cons.prems(1,3) by simp
    ultimately show ?thesis
      using m by (simp add: replaceDomain_Cons [OF assms(1)] domain_attribute_def)
  qed
qed

text \<open>
  Claim C6, as the code has it. A cookie line without \<open>domain=\<close> is left as it is, so it
  gets no domain attribute. In a line without line terminators whose leftmost \<open>domain=\<close> is
  followed by at least one character, the domain attribute after \<open>replaceDomain\<close> is the
  host, for a host that contains neither a dollar sign nor a semicolon.
\<close>

theorem replaceDomain_domain_attribute:
  "(domain_attribute cookie = None \<longrightarrow> replaceDomain host cookie = cookie) \<and>
   ((\<forall>c \<in> set cookie. \<not> is_line_terminator c) \<and>
    (\<exists>rest. after_domain cookie = Some rest \<and> rest \<noteq> []) \<and>
    CHR ''$'' \<notin> set host \<and> CHR '';'' \<notin> set host \<longrightarrow>
      domain_attribute (replaceDomain host cookie) = Some host)"
  using replaceDomain_no_domain [of cookie host]
        domain_attribute_replaceDomain [of host cookie]
  by (auto simp: domain_attribute_def)

theorem replaceDomain_domain_attribute_witness:
  "domain_attribute
     (replaceDomain ''store.example.com''
        ''checkout.vtex.com=__ofid=form-1; domain=vtex.com; path=/'') =
     Some ''store.example.com'' \<and>
   replaceDomain ''store.example.com'' ''tracking=xyz; path=/'' = ''tracking=xyz; path=/''"
  using replaceDomain_domain_attribute
          [of "''checkout.vtex.com=__ofid=form-1; domain=vtex.com; path=/''" "''store.example.com''"]
        replaceDomain_domain_attribute [of "''tracking=xyz; path=/''" "''store.example.com''"]
  by (simp add: domain_attribute_def is_line_terminator_def)

text \<open>
  A whitelisted line that carries no domain attribute comes out unchanged: its domain
  attribute is not the forwarding host.
\<close>

theorem replaceDomain_without_domain_counterexample:
  "replaceDomain ''store.example.com'' ''.ASPXAUTH=token; path=/'' = ''.ASPXAUTH=token; path=/'' \<and>
   domain_attribute (replaceDomain ''store.example.com'' ''.ASPXAUTH=token; path=/'') \<noteq>
     Some ''store.example.com''"
  by (simp add: replaceDomain_def match_here_def domain_attribute_def)

section \<open>The calls of the add-item mutation\<close>

lemma addOptionsForItems_trace:
  "addOptionsForItems cl ws added prev tr = (r, tr') \<Longrightarrow>
     \<exists>k. tr' = tr @ map (attach_call added) (take k ws)"
proof (induction ws arbitrary: tr)
  case Nil
  then show ?case by simp
next
  case (Cons w ws)
  show ?case
  proof (cases "await (checkout_attachOptions cl tr (orderFormId added) (ItemFields.truncate w)
                  (case options w of Defined os \<Rightarrow> os | _ \<Rightarrow> []))")
    case (Inl e)
    then have "tr' = tr @ map (attach_call added) (take 1 (w # ws))"
      using Cons.prems by (simp add: Let_def attach_call_def)
    then show ?thesis by blast
  next
    case (Inr v)
    then have "addOptionsForItems cl ws added prev (tr @ [attach_call added w]) = (r, tr')"
      using Cons.prems by (simp add: Let_def attach_call_def)
    then obtain k where "tr' = (tr @ [attach_call added w]) @ map (attach_call added) (take k ws)"
      using Cons.IH by blast
    then have "tr' = tr @ map (attach_call added) (take (Suc k) (w # ws))" by simp
    then show ?thesis by blast
  qed
qed

lemma addOptionsForItems_resolved:
  "addOptionsForItems cl ws added prev tr = (Inr u, tr') \<Longrightarrow>
     tr' = tr @ map (attach_call added) ws"
proof (induction ws arbitrary: tr)
  case Nil
  then show ?case by simp
next
  case (Cons w ws)
  have "addOptionsForItems cl ws added prev (tr @ [attach_call added w]) = (Inr u, tr')"
    using Cons.prems by (auto simp: Let_def attach_call_def split: sum.splits)
  then have "tr' = (tr @ [attach_call added w]) @ map (attach_call added) ws"
    by (rule Cons.IH)
  then show ?case by simp
qed

lemma addOptionsForItems_answered:
  assumes "\<forall>h i it os. \<exists>v. checkout_attachOptions cl h i it os = Resolves v"
  shows "\<exists>tr'. addOptionsForItems cl ws added prev tr = (Inr (), tr')"
proof (induction ws arbitrary: tr)
  case Nil
  show ?case by simp
next
  case (Cons w ws)
  obtain v where "checkout_attachOptions cl tr (orderFormId added) (ItemFields.truncate w)
                  (case options w of Defined os \<Rightarrow> os | _ \<Rightarrow> []) = Resolves v"
    using assms by blast
  then show ?case using Cons.IH by (simp add: Let_def)
qed

lemma attach_call_kinds [simp]:
  "is_attach_call (attach_call added w)" "\<not> is_addItem_call (attach_call added w)"
  "\<not> is_marketing_call (attach_call added w)" "attach_call added w \<noteq> OrderFormCall"
  by (simp_all add: attach_call_def)

lemma addItem_add_no_marketing:
  assumes "addItem_add cl oid its sc prev tr = (r, tr')"
  shows "\<exists>ext. tr' = tr @ ext \<and> (\<forall>c \<in> set ext. \<not> is_marketing_call c)"
proof -
  let ?a = "AddItemCall oid (map ItemFields.truncate its) sc"
  show ?thesis
  proof (cases "await (checkout_addItem cl tr oid (map ItemFields.truncate its) sc)")
    case (Inl e)
    then have "tr' = tr @ [?a]" using assms by (simp add: addItem_add_def Let_def)
    then show ?thesis by simp
  next
    case (Inr added)
    obtain r2 tr2 where o: "addOptionsForItems cl (filter has_options its) added prev (tr @ [?a]) = (r2, tr2)"
      by (cases "addOptionsForItems cl (filter has_options its) added prev (tr @ [?a])")
    then obtain k where tr2: "tr2 = (tr @ [?a]) @ map (attach_call added) (take k (filter has_options its))"
      using addOptionsForItems_trace by blast
    have "tr' = tr2 \<or> tr' = tr2 @ [OrderFormCall]"
      using assms Inr o by (auto simp: addItem_add_def Let_def split: sum.splits if_splits)
    then show ?thesis using tr2 by auto
  qed
qed

lemma truthy_path_utm: "truthy (path_utm f s) \<Longrightarrow> utmParams s \<noteq> Undefined"
  by (auto simp: path_utm_def)

lemma truthy_path_utmi: "truthy (path_utmi f s) \<Longrightarrow> utmiParams s \<noteq> Undefined"
  by (auto simp: path_utmi_def)

lemma should_update_has_keys:
  assumes "is_truthy (shouldUpdateMarketingData m s)"
  shows "length (object_keys s) > 0"
proof -
  have "\<exists>v \<in> set (session_values s). truthy v"
    using assms
    unfolding shouldUpdateMarketingData_def session_values_def Let_def js_and_def js_or_def
    by (auto split: if_splits)
  then have "utmParams s \<noteq> Undefined \<or> utmiParams s \<noteq> Undefined"
    unfolding session_values_def getSessionMarketingParams_def Let_def
    by (auto dest: truthy_path_utm truthy_path_utmi)
  then show ?thesis by (auto simp: object_keys_def)
qed

lemma addItem_marketing_payload:
  assumes "addItem_marketing cl oid' its sc fetched sess tr = (r, tr')"
    and "UpdateOrderFormMarketingDataCall oid payload \<in> set tr'"
    and "\<forall>c \<in> set tr. \<not> is_marketing_call c"
  shows "payload = newMarketingData (marketingData fetched) sess \<and>
         is_truthy (shouldUpdateMarketingData (marketingData fetched) sess)"
proof (cases "is_truthy (shouldUpdateMarketingData (marketingData fetched) sess)")
  case False
  then have "addItem_add cl oid' its sc (items fetched) tr = (r, tr')"
    using assms(1) by (simp add: addItem_marketing_def)
  then obtain ext where "tr' = tr @ ext" "\<forall>c \<in> set ext. \<not> is_marketing_call c"
    using addItem_add_no_marketing by blast
  then have "\<forall>c \<in> set tr'. \<not> is_marketing_call c" using assms(3) by auto
  then show ?thesis using assms(2) by fastforce
next
  case True
  let ?u = "UpdateOrderFormMarketingDataCall oid' (newMarketingData (marketingData fetched) sess)"
  have "\<exists>ext. tr' = tr @ [?u] @ ext \<and> (\<forall>c \<in> set ext. \<not> is_marketing_call c)"
  proof (cases "await (checkout_updateOrderFormMarketingData cl tr oid'
                         (newMarketingData (marketingData fetched) sess))")
    case (Inl e)
    then have "tr' = tr @ [?u] @ []"
      using assms(1) True by (simp add: addItem_marketing_def Let_def)
    then show ?thesis by (intro exI [of _ "[]"]) simp
  next
    case (Inr v)
    then have "addItem_add cl oid' its sc (items fetched) (tr @ [?u]) = (r, tr')"
      using assms(1) True by (simp add: addItem_marketing_def Let_def)
    then obtain ext where "tr' = (tr @ [?u]) @ ext" "\<forall>c \<in> set ext. \<not> is_marketing_call c"
      using addItem_add_no_marketing by blast
    then show ?thesis by auto
  qed
  then obtain ext where e: "tr' = tr @ [?u] @ ext" "\<forall>c \<in> set ext. \<not> is_marketing_call c"
    by blast
  have "UpdateOrderFormMarketingDataCall oid payload = ?u"
    using assms(2,3) e by fastforce
  then show ?thesis using True by simp
qed

text \<open>
  Claim C9. Whenever the add-item mutation issues a marketing-data update, the payload is
  the stored marketing data (or the empty object) with the six tracked fields taken from
  the session, every other field kept, and the marketing tags normalised: absent when
  they were absent or \<open>null\<close>, and otherwise the original entries without the falsy ones.
\<close>

theorem addItem_marketing_update_payload:
  assumes "UpdateOrderFormMarketingDataCall oid payload \<in> set (snd (mutations_addItem cl args))"
  shows "\<exists>fetched sessionData.
           await (checkout_orderForm cl []) = Inr fetched \<and>
           await (getSession cl [OrderFormCall]) = Inr sessionData \<and>
           payload = (or_empty (marketingData fetched))
             \<lparr> utmCampaign := path_utm campaign sessionData,
               utmMedium := path_utm medium sessionData,
               utmSource := path_utm source sessionData,
               utmiCampaign := path_utmi icampaign sessionData,
               utmiPart := path_utmi part sessionData,
               utmipage := path_utmi page sessionData,
               marketingTags :=
                 (case marketingTags (or_empty (marketingData fetched)) of
                    Defined tags \<Rightarrow> Defined (filter truthy tags)
                  | _ \<Rightarrow> Undefined) \<rparr>"
proof -
  obtain r tr where run: "mutations_addItem cl args = (r, tr)"
    by (cases "mutations_addItem cl args")
  then have mem: "UpdateOrderFormMarketingDataCall oid payload \<in> set tr"
    using assms by simp
  obtain oid' its where a: "arg_orderFormId args = Defined oid'" "arg_items args = Defined its"
    using run mem by (cases "arg_orderFormId args"; cases "arg_items args")
      (auto simp: mutations_addItem_def)
  obtain fetched where f: "checkout_orderForm cl [] = Resolves fetched"
    using run mem a by (cases "checkout_orderForm cl []") (auto simp: mutations_addItem_def Let_def)
  obtain sess where s: "await (getSession cl [OrderFormCall]) = Inr sess"
    using run mem a f by (cases "await (getSession cl [OrderFormCall])")
      (auto simp: mutations_addItem_def Let_def)
  have m: "addItem_marketing cl oid' its (arg_salesChannel args) fetched sess
             [OrderFormCall, GetSessionCall] = (r, tr)"
    using run a f s by (simp add: mutations_addItem_def Let_def)
  have p: "payload = newMarketingData (marketingData fetched) sess"
    and t: "is_truthy (shouldUpdateMarketingData (marketingData fetched) sess)"
    using addItem_marketing_payload [OF m mem] by simp_all
  have "payload = (or_empty (marketingData fetched))
             \<lparr> utmCampaign := path_utm campaign sess,
               utmMedium := path_utm medium sess,
               utmSource := path_utm source sess,
               utmiCampaign := path_utmi icampaign sess,
               utmiPart := path_utmi part sess,
               utmipage := path_utmi page sess,
               marketingTags :=
                 (case marketingTags (or_empty (marketingData fetched)) of
                    Defined tags \<Rightarrow> Defined (filter truthy tags)
                  | _ \<Rightarrow> Undefined) \<rparr>"
    unfolding p newMarketingData_def Let_def
    using should_update_has_keys [OF t]
    by (simp split: js.splits)
  then show ?thesis using f s by auto
qed

theorem addItem_marketing_update_payload_witness:
  "UpdateOrderFormMarketingDataCall ''form-1''
     \<lparr> utmCampaign = Undefined, utmMedium = Undefined, utmSource = Defined ''a'',
       utmiCampaign = Undefined, utmiPart = Undefined, utmipage = Undefined,
       marketingTags = Defined [Defined ''tag''], otherFields = [(''coupon'', ''SAVE10'')] \<rparr>
     \<in> set (snd (mutations_addItem answering_clients args_plain))"
proof -
  let ?p = "\<lparr> utmCampaign = Undefined, utmMedium = Undefined, utmSource = Defined ''a'',
       utmiCampaign = Undefined, utmiPart = Undefined, utmipage = Undefined,
       marketingTags = Defined [Defined ''tag'', Null, Defined []],
       otherFields = [(''coupon'', ''SAVE10'')] \<rparr>"
  have "\<exists>payload. UpdateOrderFormMarketingDataCall ''form-1'' payload
          \<in> set (snd (mutations_addItem answering_clients args_plain))"
    by (simp add: addItem_defs marketing_defs example_defs)
  then obtain payload where mem: "UpdateOrderFormMarketingDataCall ''form-1'' payload
          \<in> set (snd (mutations_addItem answering_clients args_plain))"
    by blast
  have "payload = \<lparr> utmCampaign = Undefined, utmMedium = Undefined, utmSource = Defined ''a'',
       utmiCampaign = Undefined, utmiPart = Undefined, utmipage = Undefined,
       marketingTags = Defined [Defined ''tag''], otherFields = [(''coupon'', ''SAVE10'')] \<rparr>"
    using addItem_marketing_update_payload [OF mem]
    by (auto simp: example_defs getSession_def path_utm_def path_utmi_def)
  then show ?thesis using mem by simp
qed

lemma filter_attach_calls [simp]:
  "filter is_attach_call (map (attach_call added) ws) = map (attach_call added) ws"
  "filter is_addItem_call (map (attach_call added) ws) = []"
  "filter (\<lambda>c. c = OrderFormCall) (map (attach_call added) ws) = []"
  by (induction ws) simp_all

lemma addItem_add_resolved:
  assumes "addItem_add cl oid its sc prev tr = (Inr result, tr')"
  shows "\<exists>added.
           await (checkout_addItem cl tr oid (map ItemFields.truncate its) sc) = Inr added \<and>
           (filter has_options its = [] \<longrightarrow>
              tr' = tr @ [AddItemCall oid (map ItemFields.truncate its) sc] \<and> result = added) \<and>
           (filter has_options its \<noteq> [] \<longrightarrow>
              tr' = tr @ [AddItemCall oid (map ItemFields.truncate its) sc] @
                      map (attach_call added) (filter has_options its) @ [OrderFormCall] \<and>
              await (checkout_orderForm cl (butlast tr')) = Inr result)"
proof -
  let ?a = "AddItemCall oid (map ItemFields.truncate its) sc"
  let ?ws = "filter has_options its"
  obtain added where added: "await (checkout_addItem cl tr oid (map ItemFields.truncate its) sc) = Inr added"
    using assms by (cases "await (checkout_addItem cl tr oid (map ItemFields.truncate its) sc)")
      (auto simp: addItem_add_def Let_def)
  obtain tr2 where o: "addOptionsForItems cl ?ws added prev (tr @ [?a]) = (Inr (), tr2)"
    using assms added
    by (cases "addOptionsForItems cl ?ws added prev (tr @ [?a])")
       (auto simp: addItem_add_def Let_def split: sum.splits)
  have tr2: "tr2 = (tr @ [?a]) @ map (attach_call added) ?ws"
    using addOptionsForItems_resolved [OF o] .
  have plain: "?ws = [] \<longrightarrow> tr' = tr @ [?a] \<and> result = added"
    using assms added o tr2 by (auto simp: addItem_add_def Let_def)
  have attached: "?ws \<noteq> [] \<longrightarrow>
      tr' = tr @ [?a] @ map (attach_call added) ?ws @ [OrderFormCall] \<and>
      await (checkout_orderForm cl (butlast tr')) = Inr result"
  proof
    assume ne: "?ws \<noteq> []"
    have r: "(case await (checkout_orderForm cl tr2) of
                Inl e \<Rightarrow> (Inl e, tr2 @ [OrderFormCall])
              | Inr refetched \<Rightarrow> (Inr refetched, tr2 @ [OrderFormCall])) = (Inr result, tr')"
      using assms added o ne by (simp add: addItem_add_def Let_def)
    then have "tr' = tr2 @ [OrderFormCall]" "await (checkout_orderForm cl tr2) = Inr result"
      by (auto split: sum.splits)
    then show "tr' = tr @ [?a] @ map (attach_call added) ?ws @ [OrderFormCall] \<and>
      await (checkout_orderForm cl (butlast tr')) = Inr result"
      using tr2 by (simp add: butlast_append)
  qed
  show ?thesis using added plain attached by blast
qed

lemma addItem_marketing_resolved:
  assumes "addItem_marketing cl oid its sc fetched sess tr = (Inr result, tr')"
  shows "\<exists>pre. (pre = tr \<or> (\<exists>payload. pre = tr @ [UpdateOrderFormMarketingDataCall oid payload])) \<and>
           addItem_add cl oid its sc (items fetched) pre = (Inr result, tr')"
  using assms unfolding addItem_marketing_def Let_def
  by (auto split: if_splits sum.splits)

lemma addItem_add_answered:
  assumes "\<forall>h. \<exists>v. checkout_orderForm cl h = Resolves v"
    and "\<forall>h i its sc. \<exists>v. checkout_addItem cl h i its sc = Resolves v"
    and "\<forall>h i it os. \<exists>v. checkout_attachOptions cl h i it os = Resolves v"
  shows "\<exists>result tr'. addItem_add cl oid its sc prev tr = (Inr result, tr')"
proof -
  let ?a = "AddItemCall oid (map ItemFields.truncate its) sc"
  obtain added where a: "checkout_addItem cl tr oid (map ItemFields.truncate its) sc = Resolves added"
    using assms(2) by blast
  obtain tr2 where o: "addOptionsForItems cl (filter has_options its) added prev (tr @ [?a]) = (Inr (), tr2)"
    using addOptionsForItems_answered [OF assms(3)] by blast
  obtain v where f: "checkout_orderForm cl tr2 = Resolves v"
    using assms(1) by blast
  show ?thesis
    using a o f by (simp add: addItem_add_def Let_def)
qed

lemma addItem_marketing_answered:
  assumes "\<forall>h. \<exists>v. checkout_orderForm cl h = Resolves v"
    and "\<forall>h i its sc. \<exists>v. checkout_addItem cl h i its sc = Resolves v"
    and "\<forall>h i it os. \<exists>v. checkout_attachOptions cl h i it os = Resolves v"
    and "\<forall>h i m. \<exists>v. checkout_updateOrderFormMarketingData cl h i m = Resolves v"
  shows "\<exists>result tr'. addItem_marketing cl oid its sc fetched sess tr = (Inr result, tr')"
proof -
  obtain v where u: "checkout_updateOrderFormMarketingData cl tr oid
      (newMarketingData (marketingData fetched) sess) = Resolves v"
    using assms(4) by blast
  show ?thesis
    using u addItem_add_answered [OF assms(1,2,3)]
    by (simp add: addItem_marketing_def Let_def)
qed

lemma addItem_add_calls:
  assumes "addItem_add cl oid its sc prev tr = (r, tr')"
  shows "\<exists>ext. tr' = tr @ [AddItemCall oid (map ItemFields.truncate its) sc] @ ext \<and>
           (\<forall>c \<in> set ext. \<not> is_addItem_call c) \<and>
           (filter has_options its = [] \<longrightarrow> ext = [])"
proof -
  let ?a = "AddItemCall oid (map ItemFields.truncate its) sc"
  let ?ws = "filter has_options its"
  show ?thesis
  proof (cases "await (checkout_addItem cl tr oid (map ItemFields.truncate its) sc)")
    case (Inl e)
    then have "tr' = tr @ [?a] @ []" using assms by (simp add: addItem_add_def Let_def)
    then show ?thesis by (intro exI [of _ "[]"]) simp
  next
    case (Inr added)
    obtain r2 tr2 where o: "addOptionsForItems cl ?ws added prev (tr @ [?a]) = (r2, tr2)"
      by (cases "addOptionsForItems cl ?ws added prev (tr @ [?a])")
    then obtain k where tr2: "tr2 = (tr @ [?a]) @ map (attach_call added) (take k ?ws)"
      using addOptionsForItems_trace by blast
    have "tr' = tr2 \<or> (tr' = tr2 @ [OrderFormCall] \<and> ?ws \<noteq> [])"
      using assms Inr o by (auto simp: addItem_add_def Let_def split: sum.splits if_splits)
    then show ?thesis
    proof
      assume "tr' = tr2"
      then have "tr' = tr @ [?a] @ map (attach_call added) (take k ?ws)" using tr2 by simp
      then show ?thesis by (intro exI [of _ "map (attach_call added) (take k ?ws)"]) auto
    next
      assume "tr' = tr2 @ [OrderFormCall] \<and> ?ws \<noteq> []"
      then have "tr' = tr @ [?a] @ (map (attach_call added) (take k ?ws) @ [OrderFormCall])"
        and "?ws \<noteq> []" using tr2 by simp_all
      then show ?thesis
        by (intro exI [of _ "map (attach_call added) (take k ?ws) @ [OrderFormCall]"]) auto
    qed
  qed
qed

lemma trace_after_addItem:
  assumes "\<forall>c \<in> set pre. \<not> is_addItem_call c"
    and "tr = pre @ [AddItemCall oid clean sc] @ ext"
    and "\<forall>c \<in> set ext. \<not> is_addItem_call c"
    and "ws = [] \<longrightarrow> ext = []"
  shows "length (filter is_addItem_call tr) \<le> 1 \<and>
         (ws = [] \<longrightarrow>
            filter (\<lambda>c. c = OrderFormCall) (dropWhile (\<lambda>c. \<not> is_addItem_call c) tr) = [])"
proof -
  have "filter is_addItem_call pre = []" "filter is_addItem_call ext = []"
    using assms(1,3) by (simp_all add: filter_empty_conv)
  then have "length (filter is_addItem_call tr) \<le> 1" using assms(2) by simp
  moreover have "dropWhile (\<lambda>c. \<not> is_addItem_call c) tr = AddItemCall oid clean sc # ext"
    using assms(1,2) by simp
  ultimately show ?thesis using assms(4) by simp
qed

lemma trace_without_addItem:
  assumes "\<forall>c \<in> set tr. \<not> is_addItem_call c"
  shows "length (filter is_addItem_call tr) \<le> 1 \<and>
         (ws = [] \<longrightarrow>
            filter (\<lambda>c. c = OrderFormCall) (dropWhile (\<lambda>c. \<not> is_addItem_call c) tr) = [])"
proof -
  have f: "filter is_addItem_call tr = []" using assms by (simp add: filter_empty_conv)
  have d: "dropWhile (\<lambda>c. \<not> is_addItem_call c) tr = []" using assms by simp
  show ?thesis unfolding d f by simp
qed

lemma addItem_marketing_calls:
  assumes "addItem_marketing cl oid its sc fetched sess tr = (r, tr')"
    and "\<forall>c \<in> set tr. \<not> is_addItem_call c"
  shows "length (filter is_addItem_call tr') \<le> 1 \<and>
         (filter has_options its = [] \<longrightarrow>
            filter (\<lambda>c. c = OrderFormCall) (dropWhile (\<lambda>c. \<not> is_addItem_call c) tr') = [])"
proof -
  let ?u = "UpdateOrderFormMarketingDataCall oid (newMarketingData (marketingData fetched) sess)"
  consider (failed) "tr' = tr @ [?u]"
    | (added) pre where "pre = tr \<or> pre = tr @ [?u]"
        "addItem_add cl oid its sc (items fetched) pre = (r, tr')"
    using assms(1) unfolding addItem_marketing_def Let_def
    by (auto split: if_splits sum.splits)
  then show ?thesis
  proof cases
    case failed
    then have "\<forall>c \<in> set tr'. \<not> is_addItem_call c" using assms(2) by auto
    then show ?thesis by (rule trace_without_addItem)
  next
    case added
    have pre: "\<forall>c \<in> set pre. \<not> is_addItem_call c" using added(1) assms(2) by auto
    obtain ext where "tr' = pre @ [AddItemCall oid (map ItemFields.truncate its) sc] @ ext"
      "\<forall>c \<in> set ext. \<not> is_addItem_call c" "filter has_options its = [] \<longrightarrow> ext = []"
      using addItem_add_calls [OF added(2)] by blast
    then show ?thesis using trace_after_addItem [OF pre] by blast
  qed
qed

lemma mutations_addItem_calls:
  assumes "arg_orderFormId args = Defined oid" and "arg_items args = Defined its"
    and "mutations_addItem cl args = (r, tr)"
  shows "length (filter is_addItem_call tr) \<le> 1 \<and>
         (filter has_options its = [] \<longrightarrow>
            filter (\<lambda>c. c = OrderFormCall) (dropWhile (\<lambda>c. \<not> is_addItem_call c) tr) = [])"
proof -
  consider (early) "tr = [OrderFormCall] \<or> tr = [OrderFormCall, GetSessionCall]"
    | (late) fetched sess where
        "addItem_marketing cl oid its (arg_salesChannel args) fetched sess
           [OrderFormCall, GetSessionCall] = (r, tr)"
    using assms unfolding mutations_addItem_def Let_def
    by (auto split: outcome.splits sum.splits)
  then show ?thesis
  proof cases
    case early
    then have "\<forall>c \<in> set tr. \<not> is_addItem_call c" by auto
    then show ?thesis by (rule trace_without_addItem)
  next
    case late
    show ?thesis by (rule addItem_marketing_calls [OF late]) simp
  qed
qed

lemma addItem_trace_counts:
  assumes "pre = [OrderFormCall, GetSessionCall] \<or>
           (\<exists>payload. pre = [OrderFormCall, GetSessionCall, UpdateOrderFormMarketingDataCall oid payload])"
    and "tr = pre @ [AddItemCall oid clean sc] @ map (attach_call added) ws @ extra"
    and "extra = (if ws = [] then [] else [OrderFormCall])"
  shows "length (filter is_addItem_call tr) = 1 \<and>
         length (filter is_attach_call tr) = length ws \<and>
         length (filter (\<lambda>c. c = OrderFormCall) (dropWhile (\<lambda>c. \<not> is_addItem_call c) tr)) =
           (if ws = [] then 0 else 1)"
  using assms by auto

text \<open>
  Claim C1. Let the order-form id and the items be present. In every run of the mutation
  that resolves, the calls are: the fetch of the order form and of the session, possibly
  the marketing-data update, and then one add-item call on the items stripped of their
  options. If no item has a non-empty options list, that is the last call and the
  add-item response is the result. Otherwise one follow-up call per item with options
  comes next, then one fetch of the order form, whose answer is the result. The mutation
  resolves whenever the upstream answers every call. A failing upstream call ends the run
  with its error; even then no second add-item call is issued, and without options no
  fetch of the order form follows the add-item call.
\<close>

theorem addItem_upstream_calls:
  assumes "arg_orderFormId args = Defined oid" and "arg_items args = Defined its"
  shows
    "(\<forall>result tr. mutations_addItem cl args = (Inr result, tr) \<longrightarrow>
        (\<exists>pre added.
           (pre = [OrderFormCall, GetSessionCall] \<or>
            (\<exists>payload. pre = [OrderFormCall, GetSessionCall,
                                UpdateOrderFormMarketingDataCall oid payload])) \<and>
           await (checkout_addItem cl pre oid (map ItemFields.truncate its) (arg_salesChannel args)) =
             Inr added \<and>
           (filter has_options its = [] \<longrightarrow>
              tr = pre @ [AddItemCall oid (map ItemFields.truncate its) (arg_salesChannel args)] \<and>
              result = added) \<and>
           (filter has_options its \<noteq> [] \<longrightarrow>
              tr = pre @ [AddItemCall oid (map ItemFields.truncate its) (arg_salesChannel args)] @
                     map (attach_call added) (filter has_options its) @ [OrderFormCall] \<and>
              await (checkout_orderForm cl (butlast tr)) = Inr result)) \<and>
        length (filter is_addItem_call tr) = 1 \<and>
        length (filter is_attach_call tr) = length (filter has_options its) \<and>
        length (filter (\<lambda>c. c = OrderFormCall) (dropWhile (\<lambda>c. \<not> is_addItem_call c) tr)) =
          (if filter has_options its = [] then 0 else 1)) \<and>
     ((\<forall>h. \<exists>v. checkout_orderForm cl h = Resolves v) \<and>
      (\<forall>h. \<exists>v. sessionQueries_getSession cl h = Resolves v) \<and>
      (\<forall>h i m. \<exists>v. checkout_updateOrderFormMarketingData cl h i m = Resolves v) \<and>
      (\<forall>h i clean sc. \<exists>v. checkout_addItem cl h i clean sc = Resolves v) \<and>
      (\<forall>h i it os. \<exists>v. checkout_attachOptions cl h i it os = Resolves v) \<longrightarrow>
        (\<exists>result tr. mutations_addItem cl args = (Inr result, tr))) \<and>
     (\<forall>r tr. mutations_addItem cl args = (r, tr) \<longrightarrow>
        length (filter is_addItem_call tr) \<le> 1 \<and>
        (filter has_options its = [] \<longrightarrow>
           filter (\<lambda>c. c = OrderFormCall) (dropWhile (\<lambda>c. \<not> is_addItem_call c) tr) = []))"
proof (intro conjI allI impI)
  fix result tr
  assume run: "mutations_addItem cl args = (Inr result, tr)"
  let ?sc = "arg_salesChannel args"
  let ?a = "AddItemCall oid (map ItemFields.truncate its) ?sc"
  let ?ws = "filter has_options its"
  obtain fetched where f: "checkout_orderForm cl [] = Resolves fetched"
    using run assms by (cases "checkout_orderForm cl []") (auto simp: mutations_addItem_def Let_def)
  obtain sess where s: "await (getSession cl [OrderFormCall]) = Inr sess"
    using run assms f by (cases "await (getSession cl [OrderFormCall])")
      (auto simp: mutations_addItem_def Let_def)
  have m: "addItem_marketing cl oid its ?sc fetched sess [OrderFormCall, GetSessionCall] =
             (Inr result, tr)"
    using run assms f s by (simp add: mutations_addItem_def Let_def)
  obtain pre where pre: "pre = [OrderFormCall, GetSessionCall] \<or>
      (\<exists>payload. pre = [OrderFormCall, GetSessionCall] @ [UpdateOrderFormMarketingDataCall oid payload])"
    and add: "addItem_add cl oid its ?sc (items fetched) pre = (Inr result, tr)"
    using addItem_marketing_resolved [OF m] by blast
  obtain added where added: "await (checkout_addItem cl pre oid (map ItemFields.truncate its) ?sc) = Inr added"
    and plain: "?ws = [] \<longrightarrow> tr = pre @ [?a] \<and> result = added"
    and attached: "?ws \<noteq> [] \<longrightarrow> tr = pre @ [?a] @ map (attach_call added) ?ws @ [OrderFormCall] \<and>
              await (checkout_orderForm cl (butlast tr)) = Inr result"
    using addItem_add_resolved [OF add] by blast
  have pre': "pre = [OrderFormCall, GetSessionCall] \<or>
      (\<exists>payload. pre = [OrderFormCall, GetSessionCall, UpdateOrderFormMarketingDataCall oid payload])"
    using pre by simp
  show "\<exists>pre added.
           (pre = [OrderFormCall, GetSessionCall] \<or>
            (\<exists>payload. pre = [OrderFormCall, GetSessionCall,
                                UpdateOrderFormMarketingDataCall oid payload])) \<and>
           await (checkout_addItem cl pre oid (map ItemFields.truncate its) (arg_salesChannel args)) =
             Inr added \<and>
           (filter has_options its = [] \<longrightarrow>
              tr = pre @ [AddItemCall oid (map ItemFields.truncate its) (arg_salesChannel args)] \<and>
              result = added) \<and>
           (filter has_options its \<noteq> [] \<longrightarrow>
              tr = pre @ [AddItemCall oid (map ItemFields.truncate its) (arg_salesChannel args)] @
                     map (attach_call added) (filter has_options its) @ [OrderFormCall] \<and>
              await (checkout_orderForm cl (butlast tr)) = Inr result)"
    using pre' added plain attached by blast
  have shape: "tr = pre @ [?a] @ map (attach_call added) ?ws @ (if ?ws = [] then [] else [OrderFormCall])"
    using plain attached by (cases "?ws = []") simp_all
  note counts = addItem_trace_counts [OF pre' shape refl]
  show "length (filter is_addItem_call tr) = 1" using counts by blast
  show "length (filter is_attach_call tr) = length ?ws" using counts by blast
  show "length (filter (\<lambda>c. c = OrderFormCall) (dropWhile (\<lambda>c. \<not> is_addItem_call c) tr)) =
          (if ?ws = [] then 0 else 1)" using counts by blast
next
  assume up: "(\<forall>h. \<exists>v. checkout_orderForm cl h = Resolves v) \<and>
      (\<forall>h. \<exists>v. sessionQueries_getSession cl h = Resolves v) \<and>
      (\<forall>h i m. \<exists>v. checkout_updateOrderFormMarketingData cl h i m = Resolves v) \<and>
      (\<forall>h i clean sc. \<exists>v. checkout_addItem cl h i clean sc = Resolves v) \<and>
      (\<forall>h i it os. \<exists>v. checkout_attachOptions cl h i it os = Resolves v)"
  obtain fetched where f: "checkout_orderForm cl [] = Resolves fetched"
    using up by blast
  obtain sess where s: "sessionQueries_getSession cl [OrderFormCall] = Resolves sess"
    using up by blast
  have "\<exists>result tr. addItem_marketing cl oid its (arg_salesChannel args) fetched sess
          [OrderFormCall, GetSessionCall] = (Inr result, tr)"
    using up by (intro addItem_marketing_answered) blast+
  then show "\<exists>result tr. mutations_addItem cl args = (Inr result, tr)"
    using assms f s by (simp add: mutations_addItem_def getSession_def Let_def)
next
  fix r tr
  assume "mutations_addItem cl args = (r, tr)"
  then show "length (filter is_addItem_call tr) \<le> 1"
    using mutations_addItem_calls [OF assms] by blast
next
  fix r tr
  assume "mutations_addItem cl args = (r, tr)" and "filter has_options its = []"
  then show "filter (\<lambda>c. c = OrderFormCall) (dropWhile (\<lambda>c. \<not> is_addItem_call c) tr) = []"
    using mutations_addItem_calls [OF assms] by blast
qed

theorem addItem_upstream_calls_witness:
  "mutations_addItem answering_clients args_plain =
     (Inr form_added, snd (mutations_addItem answering_clients args_plain)) \<and>
   length (filter is_addItem_call (snd (mutations_addItem answering_clients args_plain))) = 1 \<and>
   length (filter is_attach_call (snd (mutations_addItem answering_clients args_plain))) = 0 \<and>
   length (filter (\<lambda>c. c = OrderFormCall)
     (dropWhile (\<lambda>c. \<not> is_addItem_call c) (snd (mutations_addItem answering_clients args_plain)))) = 0 \<and>
   mutations_addItem answering_clients args_bundle =
     (Inr form_refetched, snd (mutations_addItem answering_clients args_bundle)) \<and>
   length (filter is_addItem_call (snd (mutations_addItem answering_clients args_bundle))) = 1 \<and>
   length (filter is_attach_call (snd (mutations_addItem answering_clients args_bundle))) = 1 \<and>
   length (filter (\<lambda>c. c = OrderFormCall)
     (dropWhile (\<lambda>c. \<not> is_addItem_call c) (snd (mutations_addItem answering_clients args_bundle)))) = 1"
proof -
  have p: "fst (mutations_addItem answering_clients args_plain) = Inr form_added"
    by (simp add: addItem_defs marketing_defs example_defs)
  have b: "fst (mutations_addItem answering_clients args_bundle) = Inr form_refetched"
    by (simp add: addItem_defs marketing_defs example_defs)
  have p': "mutations_addItem answering_clients args_plain =
     (Inr form_added, snd (mutations_addItem answering_clients args_plain))"
    using p by (metis prod.collapse)
  have b': "mutations_addItem answering_clients args_bundle =
     (Inr form_refetched, snd (mutations_addItem answering_clients args_bundle))"
    using b by (metis prod.collapse)
  have wp: "filter has_options [item_plain] = []"
    by (simp add: has_options_def item_plain_def)
  have wb: "filter has_options [item_plain, item_bundle] = [item_bundle]"
    by (simp add: has_options_def item_plain_def item_bundle_def)
  have ap: "arg_orderFormId args_plain = Defined ''form-1''" "arg_items args_plain = Defined [item_plain]"
    by (simp_all add: args_plain_def)
  have ab: "arg_orderFormId args_bundle = Defined ''form-1''"
    "arg_items args_bundle = Defined [item_plain, item_bundle]"
    by (simp_all add: args_bundle_def)
  note tp = addItem_upstream_calls [OF ap, of answering_clients, THEN conjunct1, rule_format, OF p']
  note tb = addItem_upstream_calls [OF ab, of answering_clients, THEN conjunct1, rule_format, OF b']
  show ?thesis
    using p' b' tp tb unfolding wp wb by simp
qed

end
